theory Spec2Isabelle
  imports Complex_Main "HOL-Library.AList"
begin

section \<open>Python values\<close>

text \<open>
  The values that flow through \<^verbatim>\<open>app.py\<close>: cells of a spreadsheet row, parsed JSON
  documents and the fields of the order dictionaries. A Python float is a real number
  or one of the three special values; a dictionary with string keys (a JSON object) is
  an association list in insertion order. Strings are taken as ASCII.
\<close>

datatype pyfloat = Fin real | PosInf | NegInf | NaN

datatype pyval =
    PNone
  | PBool bool
  | PInt int
  | PFloat pyfloat
  | PStr string
  | PList "pyval list"
  | PDict "(string \<times> pyval) list"

datatype py_error = AttributeError | TypeError | ValueError | OverflowError | KeyError

text \<open>
  The builtins whose result on a string or a float is fixed by the Python
  implementation and not by this program: \<^verbatim>\<open>int(s)\<close> and \<^verbatim>\<open>float(s)\<close> on a string
  (\<open>None\<close> is \<^verbatim>\<open>ValueError\<close>) and \<^verbatim>\<open>str(x)\<close> on a finite float.
\<close>

record builtins =
  int_of_str :: "string \<Rightarrow> int option"
  float_of_str :: "string \<Rightarrow> pyfloat option"
  str_of_float :: "real \<Rightarrow> string"

text \<open>Truth value of a Python object (\<^verbatim>\<open>if x:\<close>, \<^verbatim>\<open>not x\<close>); \<^verbatim>\<open>nan\<close> is true.\<close>

fun truthy :: "pyval \<Rightarrow> bool" where
  "truthy PNone = False"
| "truthy (PBool b) = b"
| "truthy (PInt i) = (i \<noteq> 0)"
| "truthy (PFloat (Fin r)) = (r \<noteq> 0)"
| "truthy (PFloat _) = True"
| "truthy (PStr s) = (s \<noteq> [])"
| "truthy (PList xs) = (xs \<noteq> [])"
| "truthy (PDict kvs) = (kvs \<noteq> [])"

text \<open>\<^verbatim>\<open>int(x)\<close>: truncation towards zero on a float.\<close>

fun py_int :: "builtins \<Rightarrow> pyval \<Rightarrow> py_error + int" where
  "py_int B (PInt i) = Inr i"
| "py_int B (PBool b) = Inr (if b then 1 else 0)"
| "py_int B (PFloat (Fin r)) = Inr (if 0 \<le> r then \<lfloor>r\<rfloor> else \<lceil>r\<rceil>)"
| "py_int B (PFloat NaN) = Inl ValueError"
| "py_int B (PFloat _) = Inl OverflowError"
| "py_int B (PStr s) = (case int_of_str B s of None \<Rightarrow> Inl ValueError | Some i \<Rightarrow> Inr i)"
| "py_int B _ = Inl TypeError"

text \<open>\<^verbatim>\<open>float(x)\<close>.\<close>

fun py_float :: "builtins \<Rightarrow> pyval \<Rightarrow> py_error + pyfloat" where
  "py_float B (PInt i) = Inr (Fin (of_int i))"
| "py_float B (PBool b) = Inr (Fin (if b then 1 else 0))"
| "py_float B (PFloat f) = Inr f"
| "py_float B (PStr s) = (case float_of_str B s of None \<Rightarrow> Inl ValueError | Some f \<Rightarrow> Inr f)"
| "py_float B _ = Inl TypeError"

text \<open>\<^verbatim>\<open>bool(x)\<close> never raises on these values.\<close>

definition py_bool :: "pyval \<Rightarrow> bool" where
  "py_bool v = truthy v"

subsection \<open>Strings\<close>

text \<open>
  \<^verbatim>\<open>s.strip()\<close> removes the leading and trailing whitespace: tab, line feed, vertical
  tab, form feed, carriage return, the four separators 28 to 31 and the space.
\<close>

definition is_space :: "char \<Rightarrow> bool" where
  "is_space c = (c \<in> set [CHR 0x09, CHR 0x0A, CHR 0x0B, CHR 0x0C, CHR 0x0D,
                            CHR 0x1C, CHR 0x1D, CHR 0x1E, CHR 0x1F, CHR 0x20])"

definition strip :: "string \<Rightarrow> string" where
  "strip s = rev (dropWhile is_space (rev (dropWhile is_space s)))"

definition upper_char :: "char \<Rightarrow> char" where
  "upper_char c =
     (case map_of (zip ''abcdefghijklmnopqrstuvwxyz'' ''ABCDEFGHIJKLMNOPQRSTUVWXYZ'') c of
        None \<Rightarrow> c
      | Some u \<Rightarrow> u)"

definition upper :: "string \<Rightarrow> string" where
  "upper s = map upper_char s"

text \<open>\<^verbatim>\<open>x.upper()\<close> on an arbitrary value: only a string has the method.\<close>

fun py_upper :: "pyval \<Rightarrow> py_error + string" where
  "py_upper (PStr s) = Inr (upper s)"
| "py_upper _ = Inl AttributeError"

definition digit_char :: "nat \<Rightarrow> char" where
  "digit_char d = ''0123456789'' ! d"

function str_nat :: "nat \<Rightarrow> string" where
  "str_nat n = (if n < 10 then [digit_char n] else str_nat (n div 10) @ [digit_char (n mod 10)])"
  by pat_completeness auto
termination
  by (relation "measure id") auto

definition str_int :: "int \<Rightarrow> string" where
  "str_int i = (if i < 0 then CHR ''-'' # str_nat (nat (- i)) else str_nat (nat i))"

text \<open>
  \<^verbatim>\<open>str(x)\<close> on an instrument token at line 118. The token is a key of
  \<^verbatim>\<open>tokens_to_check\<close> there, so it is neither a list nor a dict, whose text is left empty.
\<close>

fun py_str :: "builtins \<Rightarrow> pyval \<Rightarrow> string" where
  "py_str B (PStr s) = s"
| "py_str B (PInt i) = str_int i"
| "py_str B (PBool b) = (if b then ''True'' else ''False'')"
| "py_str B PNone = ''None''"
| "py_str B (PFloat (Fin r)) = str_of_float B r"
| "py_str B (PFloat PosInf) = ''inf''"
| "py_str B (PFloat NegInf) = ''-inf''"
| "py_str B (PFloat NaN) = ''nan''"
| "py_str B (PList xs) = []"
| "py_str B (PDict kvs) = []"

subsection \<open>Dictionaries\<close>

text \<open>
  A \<^verbatim>\<open>dict\<close> keeps insertion order: assigning to a key that is present keeps its
  position (\<^const>\<open>AList.update\<close>), \<^verbatim>\<open>del\<close> removes the entry (\<^const>\<open>AList.delete\<close>).
\<close>

type_synonym ('k, 'v) dict = "('k \<times> 'v) list"

text \<open>\<^verbatim>\<open>x.get(key, default)\<close> on an arbitrary value: only a dict has the method.\<close>

fun py_get :: "pyval \<Rightarrow> string \<Rightarrow> pyval \<Rightarrow> py_error + pyval" where
  "py_get (PDict kvs) k dflt = Inr (case map_of kvs k of None \<Rightarrow> dflt | Some v \<Rightarrow> v)"
| "py_get _ k dflt = Inl AttributeError"

text \<open>
  Keys of a \<^verbatim>\<open>dict\<close> are compared with \<^verbatim>\<open>==\<close> after hashing: a list or a dict is
  unhashable, and \<^verbatim>\<open>True\<close>, \<^verbatim>\<open>1\<close> and \<^verbatim>\<open>1.0\<close> are one key. \<open>hash_key\<close> gives the
  representative under which a key is stored (a \<^verbatim>\<open>nan\<close> key is taken as one key).
\<close>

fun hash_key :: "pyval \<Rightarrow> py_error + pyval" where
  "hash_key (PList xs) = Inl TypeError"
| "hash_key (PDict kvs) = Inl TypeError"
| "hash_key (PBool b) = Inr (PInt (if b then 1 else 0))"
| "hash_key (PFloat (Fin r)) = Inr (if of_int \<lfloor>r\<rfloor> = r then PInt \<lfloor>r\<rfloor> else PFloat (Fin r))"
| "hash_key v = Inr v"

section \<open>Instrument registry\<close>

text \<open>
  \<^verbatim>\<open>instrument_mapping\<close>: symbol to instrument token. \<^verbatim>\<open>NSE.json\<close> is absent, unreadable
  (opening or parsing it raises) or parsed into a sequence of JSON objects.
\<close>

type_synonym instrument_mapping = "(string, int) dict"

datatype nse_file = Missing | Unreadable | Parsed "(string \<times> pyval) list list"

text \<open>The body of the loop over the items; an exception leaves the loop.\<close>

definition load_item :: "builtins \<Rightarrow> instrument_mapping \<Rightarrow> (string \<times> pyval) list \<Rightarrow> py_error + instrument_mapping" where
  "load_item B m item =
     (case (map_of item ''symbol'', map_of item ''instrument_token'') of
        (Some symv, Some tokv) \<Rightarrow>
          (case py_int B tokv of
             Inl e \<Rightarrow> Inl e
           | Inr tok \<Rightarrow>
               (case symv of
                  PStr s \<Rightarrow> Inr (AList.update (upper (strip s)) tok m)
                | _ \<Rightarrow> Inl AttributeError))
      | _ \<Rightarrow> Inr m)"

text \<open>
  The loop mutates the global mapping item by item, so the entries stored before an
  exception stay: the result is the mapping reached together with the error, if any.
\<close>

fun load_items :: "builtins \<Rightarrow> instrument_mapping \<Rightarrow> (string \<times> pyval) list list \<Rightarrow> instrument_mapping \<times> py_error option" where
  "load_items B m [] = (m, None)"
| "load_items B m (item # items) =
     (case load_item B m item of
        Inl e \<Rightarrow> (m, Some e)
      | Inr m' \<Rightarrow> load_items B m' items)"

text \<open>
  What \<^verbatim>\<open>load_instrument_mapping\<close> prints: the number of mappings, the error, or nothing
  when the file does not exist. The function itself returns \<^verbatim>\<open>None\<close>.
\<close>

datatype load_report = Loaded nat | LoadError | Silent

definition load_instrument_mapping :: "builtins \<Rightarrow> instrument_mapping \<Rightarrow> nse_file \<Rightarrow> instrument_mapping \<times> load_report" where
  "load_instrument_mapping B m f =
     (case f of
        Missing \<Rightarrow> (m, Silent)
      | Unreadable \<Rightarrow> (m, LoadError)
      | Parsed items \<Rightarrow>
          (case load_items B m items of
             (m', None) \<Rightarrow> (m', Loaded (length m'))
           | (m', Some e) \<Rightarrow> (m', LoadError)))"

fun get_instrument_token :: "instrument_mapping \<Rightarrow> pyval \<Rightarrow> py_error + pyval" where
  "get_instrument_token m (PStr s) =
     (if s = [] then Inr PNone
      else (case map_of m (upper (strip s)) of None \<Rightarrow> Inr PNone | Some tok \<Rightarrow> Inr (PInt tok)))"
| "get_instrument_token m v = (if \<not> truthy v then Inr PNone else Inl AttributeError)"

section \<open>The broker and the clock\<close>

text \<open>
  The two remote calls of the program: \<^verbatim>\<open>requests.get\<close> on the market-quote URL of a
  token and \<^verbatim>\<open>requests.post\<close> on the order-placement URL with a payload, each with the
  bearer credential. A call together with the \<^verbatim>\<open>response.json()\<close> that follows it
  either raises before a response arrives (\<^verbatim>\<open>json.dumps\<close> of the payload included),
  receives a response whose body is not JSON (\<^verbatim>\<open>json()\<close> raises), or yields the status
  code and the parsed body.
\<close>

datatype request = GetPrice pyval pyval | PostOrder "(string \<times> pyval) list" pyval

datatype reply = NoResponse | BadBody nat | Reply nat pyval

text \<open>
  The world outside the program answers the \<open>n\<close>-th request issued since the start and
  tells the time (\<^verbatim>\<open>int(time.time())\<close>, \<^verbatim>\<open>datetime.now().isoformat()\<close>) once \<open>n\<close>
  requests have been issued.
\<close>

record world =
  net :: "nat \<Rightarrow> request \<Rightarrow> reply"
  clock :: "nat \<Rightarrow> int"
  now_iso :: "nat \<Rightarrow> string"

section \<open>Order store\<close>

text \<open>
  The global dictionaries \<^verbatim>\<open>active_orders\<close> and \<^verbatim>\<open>stop_loss_orders\<close>, keyed by order
  identifier, whose values are dictionaries themselves, and the requests issued so far.
\<close>

type_synonym order = "(string, pyval) dict"

text \<open>
  The lines the program prints, each with the identifier it names: lines 65, 72, 99, 103,
  120, 123, 157 and 163 of the monitor, lines 226, 288, 291 and 295 of the ingestion.
\<close>

datatype message =
    Checking nat
  | NoAccessToken
  | Triggered pyval
  | CheckError pyval
  | PriceFailed pyval
  | PriceError
  | Executed pyval
  | ExecuteError pyval
  | SkippingRow int
  | OrderPlaced int
  | RowError int
  | FileError

record state =
  active_orders :: "(pyval, order) dict"
  stop_loss_orders :: "(pyval, order) dict"
  requests :: "request list"
  printed :: "message list"

definition say :: "message \<Rightarrow> state \<Rightarrow> state" where
  "say msg st = st\<lparr>printed := printed st @ [msg]\<rparr>"

section \<open>Ingestion\<close>

text \<open>
  \<^verbatim>\<open>d.get(key, default)\<close> on a row of the data frame or on an order dictionary.
\<close>

definition dget :: "(string, pyval) dict \<Rightarrow> string \<Rightarrow> pyval \<Rightarrow> pyval" where
  "dget row k dflt = (case map_of row k of None \<Rightarrow> dflt | Some v \<Rightarrow> v)"

definition bind :: "'e + 'a \<Rightarrow> ('a \<Rightarrow> 'e + 'b) \<Rightarrow> 'e + 'b" where
  "bind x f = (case x of Inl e \<Rightarrow> Inl e | Inr v \<Rightarrow> f v)"

text \<open>The local variables of the loop body of \<^verbatim>\<open>process_excel_file\<close> before the call.\<close>

record order_details =
  symbol :: pyval
  instrument_token :: pyval
  transaction_type :: string
  quantity :: int
  price :: pyfloat
  order_type :: string
  product :: string
  stop_loss_price :: pyval
  payload :: "(string \<times> pyval) list"

text \<open>Lines 218 to 227: the token of the row, \<open>Inr None\<close> when the row is skipped.\<close>

definition resolve_token :: "instrument_mapping \<Rightarrow> (string, pyval) dict \<Rightarrow> py_error + pyval option" where
  "resolve_token m row =
     (let symv = dget row ''symbol'' (PStr []);
          tok0 = dget row ''instrument_token'' PNone
      in bind (if \<not> truthy tok0 \<and> truthy symv then get_instrument_token m symv else Inr tok0)
           (\<lambda>tok. if \<not> truthy tok then Inr None else Inr (Some tok)))"

text \<open>Lines 229 to 252: the order details and the payload, in evaluation order.\<close>

definition extract_details :: "builtins \<Rightarrow> (string, pyval) dict \<Rightarrow> pyval \<Rightarrow> py_error + order_details" where
  "extract_details B row tok =
     bind (py_upper (dget row ''transaction_type'' (PStr ''BUY''))) (\<lambda>tt.
     bind (py_int B (dget row ''quantity'' (PInt 1))) (\<lambda>q.
     bind (py_float B (dget row ''price'' (PInt 0))) (\<lambda>p.
     bind (py_upper (dget row ''order_type'' (PStr ''MARKET''))) (\<lambda>ot.
     bind (py_upper (dget row ''product'' (PStr ''I''))) (\<lambda>pr.
     bind (py_int B tok) (\<lambda>itok.
     bind (py_int B (dget row ''disclosed_quantity'' (PInt 0))) (\<lambda>dq.
     bind (py_float B (dget row ''trigger_price'' (PInt 0))) (\<lambda>tp.
       Inr \<lparr> symbol = dget row ''symbol'' (PStr []),
             instrument_token = tok,
             transaction_type = tt,
             quantity = q,
             price = p,
             order_type = ot,
             product = pr,
             stop_loss_price = dget row ''stop_loss_price'' PNone,
             payload =
               [(''quantity'', PInt q),
                (''product'', PStr pr),
                (''validity'', dget row ''validity'' (PStr ''DAY'')),
                (''price'', PFloat p),
                (''tag'', dget row ''tag'' (PStr ''excel-order'')),
                (''instrument_token'', PInt itok),
                (''order_type'', PStr ot),
                (''transaction_type'', PStr tt),
                (''disclosed_quantity'', PInt dq),
                (''trigger_price'', PFloat tp),
                (''is_amo'', PBool (py_bool (dget row ''is_amo'' (PBool False))))] \<rparr>))))))))"

definition prepare_order :: "builtins \<Rightarrow> instrument_mapping \<Rightarrow> (string, pyval) dict \<Rightarrow> py_error + order_details option" where
  "prepare_order B m row =
     bind (resolve_token m row) (\<lambda>t.
       case t of
         None \<Rightarrow> Inr None
       | Some tok \<Rightarrow> bind (extract_details B row tok) (\<lambda>d. Inr (Some d)))"

text \<open>Line 259: the order identifier, the fallback built from the time and the row index.\<close>

definition manual_id :: "int \<Rightarrow> int \<Rightarrow> pyval" where
  "manual_id t index = PStr (''manual-'' @ str_int t @ ''-'' @ str_int index)"

definition order_id_of :: "pyval \<Rightarrow> pyval \<Rightarrow> py_error + pyval" where
  "order_id_of result fallback =
     bind (py_get result ''data'' (PDict [])) (\<lambda>d. py_get d ''order_id'' fallback)"

text \<open>Lines 262 to 274 and 278 to 286: the two dictionaries stored for a row.\<close>

definition order_record :: "order_details \<Rightarrow> string \<Rightarrow> pyval \<Rightarrow> string \<Rightarrow> order" where
  "order_record d now result access_token =
     [(''symbol'', symbol d),
      (''instrument_token'', instrument_token d),
      (''transaction_type'', PStr (transaction_type d)),
      (''quantity'', PInt (quantity d)),
      (''price'', PFloat (price d)),
      (''order_type'', PStr (order_type d)),
      (''product'', PStr (product d)),
      (''time'', PStr now),
      (''status'', PStr ''placed''),
      (''response'', result),
      (''access_token'', PStr access_token)]"

definition watch_record :: "order_details \<Rightarrow> pyfloat \<Rightarrow> string \<Rightarrow> order" where
  "watch_record d sl access_token =
     [(''symbol'', symbol d),
      (''instrument_token'', instrument_token d),
      (''quantity'', PInt (quantity d)),
      (''product'', PStr (product d)),
      (''stop_loss_price'', PFloat sl),
      (''buy_price'', PFloat (price d)),
      (''access_token'', PStr access_token)]"

text \<open>
  Lines 259 to 286, after the call has answered with \<open>result\<close>: an exception on the way
  leaves what was stored before it.
\<close>

definition store_order :: "builtins \<Rightarrow> world \<Rightarrow> string \<Rightarrow> int \<Rightarrow> order_details \<Rightarrow> pyval \<Rightarrow> state \<Rightarrow> state" where
  "store_order B W access_token index d result st =
     (let n = length (requests st) in
      case bind (order_id_of result (manual_id (clock W n) index)) hash_key of
        Inl e \<Rightarrow> say (RowError index) st
      | Inr oid \<Rightarrow>
          (let st1 = st\<lparr>active_orders :=
                         AList.update oid (order_record d (now_iso W n) result access_token) (active_orders st)\<rparr>
           in if transaction_type d = ''BUY'' \<and> stop_loss_price d \<noteq> PNone then
                (case py_float B (stop_loss_price d) of
                   Inl e \<Rightarrow> say (RowError index) st1
                 | Inr sl \<Rightarrow>
                     say (OrderPlaced index)
                       (st1\<lparr>stop_loss_orders :=
                              AList.update oid (watch_record d sl access_token) (stop_loss_orders st1)\<rparr>))
              else say (OrderPlaced index) st1))"

text \<open>The body of the loop over the rows, with its \<^verbatim>\<open>try\<close> and \<^verbatim>\<open>except\<close>.\<close>

definition process_row :: "builtins \<Rightarrow> world \<Rightarrow> instrument_mapping \<Rightarrow> string \<Rightarrow> state \<Rightarrow> int \<times> (string, pyval) dict \<Rightarrow> state" where
  "process_row B W m access_token st ir =
     (case prepare_order B m (snd ir) of
        Inl e \<Rightarrow> say (RowError (fst ir)) st
      | Inr None \<Rightarrow> say (SkippingRow (fst ir)) st
      | Inr (Some d) \<Rightarrow>
          (let req = PostOrder (payload d) (PStr access_token);
               st1 = st\<lparr>requests := requests st @ [req]\<rparr>
           in case net W (length (requests st)) req of
                Reply code result \<Rightarrow> store_order B W access_token (fst ir) d result st1
              | _ \<Rightarrow> say (RowError (fst ir)) st1))"

text \<open>
  \<^verbatim>\<open>process_excel_file\<close>: \<open>None\<close> is a file that \<^verbatim>\<open>read_excel\<close> cannot read; the rows come
  with their index labels and with the column names already stripped and lowercased.
  A column that the sheet does not have is absent from every row (\<^verbatim>\<open>row.get\<close> gives the
  default); a cell that is empty in a column the sheet has is \<^verbatim>\<open>nan\<close>.
\<close>

definition process_excel_file :: "builtins \<Rightarrow> world \<Rightarrow> instrument_mapping \<Rightarrow> string \<Rightarrow> (int \<times> (string, pyval) dict) list option \<Rightarrow> state \<Rightarrow> state" where
  "process_excel_file B W m access_token df st =
     (case df of
        None \<Rightarrow> say FileError st
      | Some rows \<Rightarrow> foldl (process_row B W m access_token) st rows)"

section \<open>Stop-loss monitor\<close>

text \<open>
  Line 118, \<^verbatim>\<open>data['data'].get(str(instrument_token), {}).get('last_price')\<close>, on a body
  that is a dict with the key \<^verbatim>\<open>data\<close>.
\<close>

definition extract_price :: "builtins \<Rightarrow> pyval \<Rightarrow> pyval \<Rightarrow> py_error + pyval" where
  "extract_price B token data =
     bind (py_get data ''data'' PNone) (\<lambda>d.
     bind (py_get d (py_str B token) (PDict [])) (\<lambda>q. py_get q ''last_price'' PNone))"

text \<open>
  \<^verbatim>\<open>get_current_price\<close>: every exception is caught and gives \<^verbatim>\<open>None\<close>. A body that is
  not a dict raises in each branch: at \<^verbatim>\<open>'data' in data\<close>, at \<^verbatim>\<open>data['data']\<close> or at
  \<^verbatim>\<open>data.get\<close> in the message of line 120.
\<close>

definition get_current_price :: "builtins \<Rightarrow> world \<Rightarrow> pyval \<Rightarrow> pyval \<Rightarrow> state \<Rightarrow> pyval \<times> state" where
  "get_current_price B W token access_token st =
     (let req = GetPrice token access_token;
          st1 = st\<lparr>requests := requests st @ [req]\<rparr>
      in case net W (length (requests st)) req of
           Reply code data \<Rightarrow>
             (case data of
                PDict kvs \<Rightarrow>
                  (if code = 200 \<and> map_of kvs ''data'' \<noteq> None
                   then (case extract_price B token data of
                           Inl e \<Rightarrow> (PNone, say PriceError st1)
                         | Inr v \<Rightarrow> (v, st1))
                   else (PNone, say (PriceFailed token) st1))
              | _ \<Rightarrow> (PNone, say PriceError st1))
         | _ \<Rightarrow> (PNone, say PriceError st1))"

text \<open>Lines 129 to 147 of \<^verbatim>\<open>execute_stop_loss\<close>: the credential and the payload.\<close>

definition stop_loss_request :: "builtins \<Rightarrow> order \<Rightarrow> py_error + request" where
  "stop_loss_request B order =
     (case map_of order ''access_token'' of
        None \<Rightarrow> Inl KeyError
      | Some cred \<Rightarrow>
          bind (py_int B (dget order ''quantity'' (PInt 1))) (\<lambda>q.
          case map_of order ''instrument_token'' of
            None \<Rightarrow> Inl KeyError
          | Some tokv \<Rightarrow>
              bind (py_int B tokv) (\<lambda>itok.
                Inr (PostOrder
                  [(''quantity'', PInt q),
                   (''product'', dget order ''product'' (PStr ''I'')),
                   (''validity'', dget order ''validity'' (PStr ''DAY'')),
                   (''price'', PInt 0),
                   (''tag'', PStr ''stop-loss-order''),
                   (''instrument_token'', PInt itok),
                   (''order_type'', PStr ''MARKET''),
                   (''transaction_type'', PStr ''SELL''),
                   (''disclosed_quantity'', PInt 0),
                   (''trigger_price'', PInt 0),
                   (''is_amo'', PBool False)]
                  cred))))"

text \<open>Lines 152 to 155: the four assignments to the dictionary \<^verbatim>\<open>order\<close>.\<close>

definition mark_executed :: "pyval \<Rightarrow> string \<Rightarrow> pyval \<Rightarrow> order \<Rightarrow> order" where
  "mark_executed current_price now result order =
     AList.update ''execution_response'' result
       (AList.update ''execution_time'' (PStr now)
         (AList.update ''execution_price'' current_price
           (AList.update ''stop_loss_executed'' (PBool True) order)))"

text \<open>
  The assignments go through the reference \<^verbatim>\<open>order\<close>: the dictionary stored under the
  key, if any, is the one that changes.
\<close>

definition mutate_entry :: "pyval \<Rightarrow> order \<Rightarrow> (pyval, order) dict \<Rightarrow> (pyval, order) dict" where
  "mutate_entry k w xs = map (\<lambda>(a, v). if a = k then (a, w) else (a, v)) xs"

text \<open>
  \<^verbatim>\<open>execute_stop_loss\<close>. The argument \<^verbatim>\<open>order\<close> is the very dictionary stored under
  \<^verbatim>\<open>order_id\<close> in \<^verbatim>\<open>stop_loss_orders\<close> (line 95), so the assignments change that entry,
  which line 161 then deletes. Every exception is caught and leaves the stores as they are.
\<close>

definition execute_stop_loss :: "builtins \<Rightarrow> world \<Rightarrow> pyval \<Rightarrow> order \<Rightarrow> pyval \<Rightarrow> state \<Rightarrow> state" where
  "execute_stop_loss B W order_id order current_price st =
     (case stop_loss_request B order of
        Inl e \<Rightarrow> say (ExecuteError order_id) st
      | Inr req \<Rightarrow>
          (let st1 = st\<lparr>requests := requests st @ [req]\<rparr> in
           case net W (length (requests st)) req of
             Reply code result \<Rightarrow>
               (let marked = mark_executed current_price (now_iso W (length (requests st1))) result order;
                    st2 = say (Executed order_id)
                            (st1\<lparr>stop_loss_orders := mutate_entry order_id marked (stop_loss_orders st1)\<rparr>)
                in if order_id \<in> set (map fst (stop_loss_orders st2))
                   then st2\<lparr>stop_loss_orders := AList.delete order_id (stop_loss_orders st2)\<rparr>
                   else st2)
           | _ \<Rightarrow> say (ExecuteError order_id) st1))"

text \<open>\<^verbatim>\<open>a <= b\<close> on floats, and with a number or anything else on the left.\<close>

fun float_le :: "pyfloat \<Rightarrow> pyfloat \<Rightarrow> bool" where
  "float_le NaN _ = False"
| "float_le _ NaN = False"
| "float_le NegInf _ = True"
| "float_le _ PosInf = True"
| "float_le (Fin a) (Fin b) = (a \<le> b)"
| "float_le _ _ = False"

fun py_le :: "pyval \<Rightarrow> pyfloat \<Rightarrow> py_error + bool" where
  "py_le (PInt i) f = Inr (float_le (Fin (of_int i)) f)"
| "py_le (PBool b) f = Inr (float_le (Fin (if b then 1 else 0)) f)"
| "py_le (PFloat g) f = Inr (float_le g f)"
| "py_le _ f = Inl TypeError"

text \<open>Line 98: \<^verbatim>\<open>stop_loss_price and current_price <= float(stop_loss_price)\<close>.\<close>

definition triggered :: "builtins \<Rightarrow> pyval \<Rightarrow> order \<Rightarrow> py_error + bool" where
  "triggered B current_price order =
     (let slp = dget order ''stop_loss_price'' PNone
      in if truthy slp then bind (py_float B slp) (\<lambda>f. py_le current_price f) else Inr False)"

text \<open>
  Lines 94 to 101: the orders of one token. An exception leaves the loop with what has
  been done so far and is reported at line 103.
\<close>

fun check_orders :: "builtins \<Rightarrow> world \<Rightarrow> pyval \<Rightarrow> pyval \<Rightarrow> state \<Rightarrow> pyval list \<Rightarrow> state" where
  "check_orders B W token current_price st [] = st"
| "check_orders B W token current_price st (order_id # order_ids) =
     (case map_of (stop_loss_orders st) order_id of
        None \<Rightarrow> say (CheckError token) st
      | Some order \<Rightarrow>
          (case triggered B current_price order of
             Inl e \<Rightarrow> say (CheckError token) st
           | Inr True \<Rightarrow>
               check_orders B W token current_price
                 (execute_stop_loss B W order_id order current_price (say (Triggered order_id) st)) order_ids
           | Inr False \<Rightarrow> check_orders B W token current_price st order_ids))"

text \<open>
  Lines 76 to 82: \<^verbatim>\<open>tokens_to_check\<close>, from token to the order identifiers that carry it.
  The key of a group is the first token object stored; a later token joins the group
  when it is equal to it as a key.
\<close>

type_synonym groups = "(pyval \<times> pyval list) list"

fun add_to_group :: "pyval \<Rightarrow> pyval \<Rightarrow> groups \<Rightarrow> groups" where
  "add_to_group token order_id [] = [(token, [order_id])]"
| "add_to_group token order_id ((t, ids) # gs) =
     (if hash_key t = hash_key token then (t, ids @ [order_id]) # gs
      else (t, ids) # add_to_group token order_id gs)"

fun group_tokens :: "(pyval, order) dict \<Rightarrow> groups \<Rightarrow> py_error + groups" where
  "group_tokens [] g = Inr g"
| "group_tokens ((order_id, order) # rest) g =
     (let token = dget order ''instrument_token'' PNone
      in if truthy token then
           (case hash_key token of
              Inl e \<Rightarrow> Inl e
            | Inr k \<Rightarrow> group_tokens rest (add_to_group token order_id g))
         else group_tokens rest g)"

text \<open>Lines 85 to 103: one price lookup for each group.\<close>

fun check_groups :: "builtins \<Rightarrow> world \<Rightarrow> pyval \<Rightarrow> state \<Rightarrow> groups \<Rightarrow> state" where
  "check_groups B W access_token st [] = st"
| "check_groups B W access_token st ((token, order_ids) # gs) =
     (case get_current_price B W token access_token st of
        (current_price, st1) \<Rightarrow>
          check_groups B W access_token
            (if current_price = PNone then st1 else check_orders B W token current_price st1 order_ids) gs)"

text \<open>
  \<^verbatim>\<open>check_stop_losses\<close>: one pass. An unhashable token raises at line 80, outside every
  \<^verbatim>\<open>try\<close>, before anything has been done.
\<close>

definition check_stop_losses :: "builtins \<Rightarrow> world \<Rightarrow> state \<Rightarrow> state" where
  "check_stop_losses B W st =
     (case stop_loss_orders st of
        [] \<Rightarrow> st
      | (first_order_id, first_order) # rest \<Rightarrow>
          (let st0 = say (Checking (length (stop_loss_orders st))) st;
               access_token = dget first_order ''access_token'' PNone
           in if \<not> truthy access_token then say NoAccessToken st0
              else (case group_tokens (stop_loss_orders st) [] of
                      Inl e \<Rightarrow> st0
                    | Inr g \<Rightarrow> check_groups B W access_token st0 g)))"

section \<open>Observations on a run\<close>

text \<open>A call that came back with a status and a parsed body.\<close>

fun is_reply :: "reply \<Rightarrow> bool" where
  "is_reply (Reply c r) = True"
| "is_reply _ = False"

section \<open>Example inputs\<close>

text \<open>
  The examples contain no numeric text and no float token, so the three builtins that
  read or print such text are never consulted; they are fixed to arbitrary values.
\<close>

definition plain_builtins :: builtins where
  "plain_builtins = \<lparr>int_of_str = (\<lambda>s. None), float_of_str = (\<lambda>s. None), str_of_float = (\<lambda>r. [])\<rparr>"

definition empty_state :: state where
  "empty_state = \<lparr>active_orders = [], stop_loss_orders = [], requests = [], printed = []\<rparr>"

text \<open>
  A broker that accepts every order under the identifier \<^verbatim>\<open>A1\<close> and quotes the given
  last price for instrument 1001.
\<close>

definition accepting_world :: "pyval \<Rightarrow> world" where
  "accepting_world last_price =
     \<lparr>net = (\<lambda>n req. case req of
                PostOrder p c \<Rightarrow> Reply 200 (PDict [(''data'', PDict [(''order_id'', PStr ''A1'')])])
              | GetPrice t c \<Rightarrow>
                  Reply 200 (PDict [(''data'', PDict [(''1001'', PDict [(''last_price'', last_price)])])])),
      clock = (\<lambda>n. 1700000000),
      now_iso = (\<lambda>n. ''2023-11-14T22:13:20'')\<rparr>"

text \<open>The row of the end-to-end scenario and the state after its ingestion.\<close>

definition abc_mapping :: instrument_mapping where
  "abc_mapping = [(''ABC'', 1001)]"

definition abc_row :: "(string, pyval) dict" where
  "abc_row = [(''symbol'', PStr ''abc''), (''quantity'', PInt 10), (''price'', PInt 100),
              (''stop_loss_price'', PInt 95)]"

definition abc_ingested :: state where
  "abc_ingested =
     process_excel_file plain_builtins (accepting_world (PInt 94)) abc_mapping ''tok''
       (Some [(0, abc_row)]) empty_state"

definition abc_watch :: order where
  "abc_watch =
     [(''symbol'', PStr ''abc''), (''instrument_token'', PInt 1001),
      (''quantity'', PInt 10), (''product'', PStr ''I''),
      (''stop_loss_price'', PFloat (Fin 95)),
      (''buy_price'', PFloat (Fin 100)),
      (''access_token'', PStr ''tok'')]"

definition abc_record :: order where
  "abc_record =
     [(''symbol'', PStr ''abc''), (''instrument_token'', PInt 1001),
      (''transaction_type'', PStr ''BUY''), (''quantity'', PInt 10),
      (''price'', PFloat (Fin 100)), (''order_type'', PStr ''MARKET''),
      (''product'', PStr ''I''), (''time'', PStr ''2023-11-14T22:13:20''),
      (''status'', PStr ''placed''),
      (''response'', PDict [(''data'', PDict [(''order_id'', PStr ''A1'')])]),
      (''access_token'', PStr ''tok'')]"

text \<open>The scenario after a pass that observes the price 94.\<close>

definition abc_liquidated :: state where
  "abc_liquidated = check_stop_losses plain_builtins (accepting_world (PInt 94)) abc_ingested"

text \<open>A watch like the one of the scenario with the stop-loss price 0, alone in the store.\<close>

definition zero_watch :: order where
  "zero_watch =
     [(''symbol'', PStr ''abc''), (''instrument_token'', PInt 1001),
      (''quantity'', PInt 10), (''product'', PStr ''I''),
      (''stop_loss_price'', PFloat (Fin 0)),
      (''buy_price'', PFloat (Fin 100)),
      (''access_token'', PStr ''tok'')]"

definition zero_state :: state where
  "zero_state =
     \<lparr>active_orders = [(PStr ''A1'', abc_record)], stop_loss_orders = [(PStr ''A1'', zero_watch)],
      requests = [], printed = []\<rparr>"

text \<open>The number that a price returned by the lookup stands for.\<close>

fun price_value :: "pyval \<Rightarrow> real option" where
  "price_value (PInt i) = Some (of_int i)"
| "price_value (PFloat (Fin r)) = Some r"
| "price_value _ = None"

text \<open>
  The state of one watch over the passes: while it is in the store no line 157 has been
  printed for it, and once it is gone exactly one has.
\<close>

definition retired_once :: "pyval \<Rightarrow> state \<Rightarrow> bool" where
  "retired_once k st =
     (if k \<in> fst ` set (stop_loss_orders st) then Executed k \<notin> set (printed st)
      else count_list (printed st) (Executed k) = 1)"

text \<open>
  A broker that quotes the given last price for instrument 1001 and rejects every order
  with status 400 and an error payload.
\<close>

definition rejecting_world :: "pyval \<Rightarrow> world" where
  "rejecting_world last_price =
     \<lparr>net = (\<lambda>n req. case req of
                PostOrder p c \<Rightarrow>
                  Reply 400 (PDict [(''status'', PStr ''error''),
                                    (''errors'', PList [PDict [(''message'', PStr ''Insufficient funds'')]])])
              | GetPrice t c \<Rightarrow>
                  Reply 200 (PDict [(''data'', PDict [(''1001'', PDict [(''last_price'', last_price)])])])),
      clock = (\<lambda>n. 1700000000),
      now_iso = (\<lambda>n. ''2023-11-14T22:13:20'')\<rparr>"

text \<open>The liquidating order of the scenario.\<close>

definition abc_sell_request :: request where
  "abc_sell_request =
     PostOrder
       [(''quantity'', PInt 10), (''product'', PStr ''I''), (''validity'', PStr ''DAY''),
        (''price'', PInt 0), (''tag'', PStr ''stop-loss-order''),
        (''instrument_token'', PInt 1001), (''order_type'', PStr ''MARKET''),
        (''transaction_type'', PStr ''SELL''), (''disclosed_quantity'', PInt 0),
        (''trigger_price'', PInt 0), (''is_amo'', PBool False)]
       (PStr ''tok'')"

text \<open>The price lookups among the requests, each with its token and its credential.\<close>

fun lookups :: "request list \<Rightarrow> (pyval \<times> pyval) list" where
  "lookups [] = []"
| "lookups (GetPrice t a # rs) = (t, a) # lookups rs"
| "lookups (PostOrder p a # rs) = lookups rs"

text \<open>The instrument tokens that line 79 lets through, watch by watch.\<close>

definition tokens_of :: "(pyval, order) dict \<Rightarrow> pyval list" where
  "tokens_of ws = filter truthy (map (\<lambda>(k, w). dget w ''instrument_token'' PNone) ws)"

text \<open>The keys of \<^verbatim>\<open>tokens_to_check\<close> as the dictionary compares them.\<close>

definition group_keys :: "groups \<Rightarrow> (py_error + pyval) list" where
  "group_keys g = map (\<lambda>(t, ids). hash_key t) g"

text \<open>Lines 68 and 69: the credential of a pass, that of the first watch.\<close>

definition pass_credential :: "state \<Rightarrow> pyval" where
  "pass_credential st =
     (case stop_loss_orders st of
        [] \<Rightarrow> PNone
      | (first_order_id, first_order) # rest \<Rightarrow> dget first_order ''access_token'' PNone)"

text \<open>
  Two watches on two instruments with two credentials, and a single watch whose
  credential is empty.
\<close>

definition other_watch :: order where
  "other_watch =
     [(''symbol'', PStr ''xyz''), (''instrument_token'', PInt 2002),
      (''quantity'', PInt 5), (''product'', PStr ''I''),
      (''stop_loss_price'', PFloat (Fin 50)),
      (''buy_price'', PFloat (Fin 60)),
      (''access_token'', PStr ''other'')]"

definition two_credentials_state :: state where
  "two_credentials_state =
     \<lparr>active_orders = [], stop_loss_orders = [(PStr ''A1'', abc_watch), (PStr ''B2'', other_watch)],
      requests = [], printed = []\<rparr>"

definition anonymous_watch :: order where
  "anonymous_watch =
     [(''symbol'', PStr ''abc''), (''instrument_token'', PInt 1001),
      (''quantity'', PInt 10), (''product'', PStr ''I''),
      (''stop_loss_price'', PFloat (Fin 95)),
      (''buy_price'', PFloat (Fin 100)),
      (''access_token'', PStr [])]"

definition anonymous_state :: state where
  "anonymous_state =
     \<lparr>active_orders = [], stop_loss_orders = [(PStr ''A1'', anonymous_watch)],
      requests = [], printed = []\<rparr>"

text \<open>
  The lookups that a pass issues, read off the store: none when the credential of the
  pass is missing or a token is unhashable, else one for each key of \<^verbatim>\<open>tokens_to_check\<close>.
\<close>

definition pass_lookups :: "state \<Rightarrow> (pyval \<times> pyval) list" where
  "pass_lookups st =
     (if truthy (pass_credential st) then
        (case group_tokens (stop_loss_orders st) [] of
           Inl e \<Rightarrow> []
         | Inr g \<Rightarrow> map (\<lambda>(t, ids). (t, pass_credential st)) g)
      else [])"

definition lookup_keys :: "(pyval \<times> pyval) list \<Rightarrow> (py_error + pyval) list" where
  "lookup_keys L = map (\<lambda>(t, a). hash_key t) L"

text \<open>Three watches over two instruments.\<close>

definition shared_state :: state where
  "shared_state =
     \<lparr>active_orders = [],
      stop_loss_orders = [(PStr ''A1'', abc_watch), (PStr ''B2'', other_watch), (PStr ''C3'', abc_watch)],
      requests = [], printed = []\<rparr>"

section \<open>Reading the instrument dataset\<close>

text \<open>
  What line 44 stores for an entry that has both fields, a string as symbol and a token
  that \<^verbatim>\<open>int()\<close> accepts; an entry that lacks a field; an entry that has both and on
  which line 44 raises.
\<close>

definition parsed_entry :: "builtins \<Rightarrow> (string \<times> pyval) list \<Rightarrow> (string \<times> int) option" where
  "parsed_entry B item =
     (case (map_of item ''symbol'', map_of item ''instrument_token'') of
        (Some (PStr s), Some tokv) \<Rightarrow>
          (case py_int B tokv of Inl e \<Rightarrow> None | Inr tok \<Rightarrow> Some (upper (strip s), tok))
      | _ \<Rightarrow> None)"

definition incomplete :: "(string \<times> pyval) list \<Rightarrow> bool" where
  "incomplete item = (map_of item ''symbol'' = None \<or> map_of item ''instrument_token'' = None)"

definition malformed :: "builtins \<Rightarrow> (string \<times> pyval) list \<Rightarrow> bool" where
  "malformed B item = (\<not> incomplete item \<and> parsed_entry B item = None)"

definition entries_of :: "builtins \<Rightarrow> (string \<times> pyval) list list \<Rightarrow> (string \<times> int) list" where
  "entries_of B items = List.map_filter (parsed_entry B) items"

text \<open>A dataset of three entries whose second entry has \<^verbatim>\<open>null\<close> as symbol.\<close>

definition broken_dataset :: "(string \<times> pyval) list list" where
  "broken_dataset =
     [[(''symbol'', PStr ''aa''), (''instrument_token'', PInt 1)],
      [(''symbol'', PNone), (''instrument_token'', PInt 2)],
      [(''symbol'', PStr ''cc''), (''instrument_token'', PInt 3)]]"

text \<open>
  A dataset with a duplicate symbol, an entry without token and symbols that need
  normalising.
\<close>

definition clean_dataset :: "(string \<times> pyval) list list" where
  "clean_dataset =
     [[(''symbol'', PStr '' abc''), (''instrument_token'', PInt 5)],
      [(''symbol'', PStr ''x'')],
      [(''symbol'', PStr ''ABC ''), (''instrument_token'', PInt 7)],
      [(''symbol'', PStr ''q''), (''instrument_token'', PInt 9)]]"

text \<open>The table after storing a sequence of entries in order.\<close>

definition store_entries :: "instrument_mapping \<Rightarrow> (string \<times> int) list \<Rightarrow> instrument_mapping" where
  "store_entries m es = foldl (\<lambda>m (k, t). AList.update k t m) m es"

section \<open>Observations on an ingestion\<close>

text \<open>The status that an order record shows.\<close>

definition placed :: "pyval \<times> order \<Rightarrow> bool" where
  "placed kr = (dget (snd kr) ''status'' PNone = PStr ''placed'')"

text \<open>
  A row of a sheet that has an \<^verbatim>\<open>instrument_token\<close> column in which the cell of this row
  is empty: \<^verbatim>\<open>read_excel\<close> gives \<^verbatim>\<open>nan\<close> for the cell.
\<close>

definition blank_token_row :: "(string, pyval) dict" where
  "blank_token_row = [(''symbol'', PStr ''abc''), (''instrument_token'', PFloat NaN),
                      (''quantity'', PInt 10), (''price'', PInt 100)]"

text \<open>The order of the scenario as the ingestion posts it, and a broker that never answers.\<close>

definition abc_buy_request :: request where
  "abc_buy_request =
     PostOrder
       [(''quantity'', PInt 10), (''product'', PStr ''I''),
        (''validity'', PStr ''DAY''), (''price'', PFloat (Fin 100)),
        (''tag'', PStr ''excel-order''), (''instrument_token'', PInt 1001),
        (''order_type'', PStr ''MARKET''), (''transaction_type'', PStr ''BUY''),
        (''disclosed_quantity'', PInt 0), (''trigger_price'', PFloat (Fin 0)),
        (''is_amo'', PBool False)]
       (PStr ''tok'')"

definition silent_world :: world where
  "silent_world =
     \<lparr>net = (\<lambda>n req. NoResponse), clock = (\<lambda>n. 1700000000), now_iso = (\<lambda>n. ''2023-11-14T22:13:20'')\<rparr>"

text \<open>A broker whose answer to a placement carries \<^verbatim>\<open>null\<close> under \<^verbatim>\<open>data\<close>.\<close>

definition null_data_world :: world where
  "null_data_world =
     \<lparr>net = (\<lambda>n req. Reply 400 (PDict [(''status'', PStr ''error''), (''data'', PNone)])),
      clock = (\<lambda>n. 1700000000),
      now_iso = (\<lambda>n. ''2023-11-14T22:13:20'')\<rparr>"

text \<open>
  A row that does not get as far as an order record: it raises before the call, is
  skipped for want of a token, or its call raises.
\<close>

definition row_fails :: "builtins \<Rightarrow> world \<Rightarrow> instrument_mapping \<Rightarrow> string \<Rightarrow> state \<Rightarrow> int \<times> (string, pyval) dict \<Rightarrow> bool" where
  "row_fails B W m tok st ir =
     (case prepare_order B m (snd ir) of
        Inl e \<Rightarrow> True
      | Inr None \<Rightarrow> True
      | Inr (Some d) \<Rightarrow> \<not> is_reply (net W (length (requests st)) (PostOrder (payload d) (PStr tok))))"

section \<open>Observations on the liquidations of a pass\<close>

text \<open>
  The calls of \<^verbatim>\<open>execute_stop_loss\<close> for an order among the printed lines: each call
  prints line 157 or line 163 once and nothing else prints them.
\<close>

definition liquidations :: "pyval \<Rightarrow> message list \<Rightarrow> nat" where
  "liquidations k msgs = count_list msgs (Executed k) + count_list msgs (ExecuteError k)"

text \<open>The order identifiers in the lists of \<^verbatim>\<open>tokens_to_check\<close>, group after group.\<close>

definition group_ids :: "groups \<Rightarrow> pyval list" where
  "group_ids g = concat (map snd g)"

section \<open>Example inputs with numeric text\<close>

text \<open>
  Builtins that read a plain decimal numeral as Python does and reject every other
  text; the examples hold no other numeric text and no float token.
\<close>

definition digit_value :: "char \<Rightarrow> nat option" where
  "digit_value ch = map_of (zip ''0123456789'' [0, 1, 2, 3, 4, 5, 6, 7, 8, 9]) ch"

definition decimal :: "string \<Rightarrow> int option" where
  "decimal s =
     (if s = [] then None
      else foldl (\<lambda>acc ch. case (acc, digit_value ch) of
                               (Some a, Some d) \<Rightarrow> Some (10 * a + int d)
                             | _ \<Rightarrow> None) (Some 0) s)"

definition digit_builtins :: builtins where
  "digit_builtins =
     \<lparr>int_of_str = decimal,
      float_of_str = (\<lambda>s. map_option (\<lambda>i. Fin (of_int i)) (decimal s)),
      str_of_float = (\<lambda>r. [])\<rparr>"

text \<open>
  A broker that accepts the \<open>n\<close>-th request under the identifier \<^verbatim>\<open>ORD\<close>\<open>n\<close> and quotes the
  given last price for instrument 1001.
\<close>

definition numbering_world :: "pyval \<Rightarrow> world" where
  "numbering_world last_price =
     \<lparr>net = (\<lambda>n req. case req of
                PostOrder p c \<Rightarrow>
                  Reply 200 (PDict [(''data'', PDict [(''order_id'', PStr (''ORD'' @ str_int (int n)))])])
              | GetPrice t c \<Rightarrow>
                  Reply 200 (PDict [(''data'', PDict [(''1001'', PDict [(''last_price'', last_price)])])])),
      clock = (\<lambda>n. 1700000000),
      now_iso = (\<lambda>n. ''2023-11-14T22:13:20'')\<rparr>"

text \<open>
  A sheet of two rows on instrument 1001, whose token is a number in the first row and
  a text in the second, and the state after its ingestion.
\<close>

definition mixed_rows :: "(int \<times> (string, pyval) dict) list" where
  "mixed_rows =
     [(0, [(''symbol'', PStr ''abc''), (''instrument_token'', PInt 1001), (''quantity'', PInt 10),
           (''price'', PInt 100), (''stop_loss_price'', PInt 95)]),
      (1, [(''symbol'', PStr ''abc''), (''instrument_token'', PStr ''1001''), (''quantity'', PInt 5),
           (''price'', PInt 100), (''stop_loss_price'', PInt 90)])]"

definition mixed_ingested :: state where
  "mixed_ingested =
     process_excel_file digit_builtins (numbering_world (PInt 96)) abc_mapping ''tok''
       (Some mixed_rows) empty_state"

text \<open>
  A broker whose quote service answers for instrument 2002 only, with the last price
  40, and that accepts every order.
\<close>

definition outage_world :: world where
  "outage_world =
     \<lparr>net = (\<lambda>n req. case req of
                PostOrder p c \<Rightarrow> Reply 200 (PDict [(''data'', PDict [(''order_id'', PStr ''S1'')])])
              | GetPrice t c \<Rightarrow>
                  if t = PInt 2002
                  then Reply 200 (PDict [(''data'', PDict [(''2002'', PDict [(''last_price'', PInt 40)])])])
                  else NoResponse),
      clock = (\<lambda>n. 1700000000),
      now_iso = (\<lambda>n. ''2023-11-14T22:13:20'')\<rparr>"


text \<open>
  A sheet of five rows with the columns \<^verbatim>\<open>symbol\<close>, \<^verbatim>\<open>instrument_token\<close>, \<^verbatim>\<open>transaction_type\<close>,
  \<^verbatim>\<open>quantity\<close> and \<^verbatim>\<open>price\<close>, every cell filled: the token cell of the third row is a text
  that is no number. The broker does not answer the call of the fifth row, which is the
  fourth request, and accepts the others under the identifiers \<^verbatim>\<open>ORD0\<close>, \<^verbatim>\<open>ORD1\<close>, ...
\<close>

definition batch_rows :: "(int \<times> (string, pyval) dict) list" where
  "batch_rows =
     [(0, [(''symbol'', PStr ''abc''), (''instrument_token'', PInt 1001),
           (''transaction_type'', PStr ''buy''), (''quantity'', PInt 10), (''price'', PInt 100)]),
      (1, [(''symbol'', PStr ''xyz''), (''instrument_token'', PInt 2002),
           (''transaction_type'', PStr ''sell''), (''quantity'', PInt 5), (''price'', PInt 0)]),
      (2, [(''symbol'', PStr ''bad''), (''instrument_token'', PStr ''n/a''),
           (''transaction_type'', PStr ''buy''), (''quantity'', PInt 1), (''price'', PInt 0)]),
      (3, [(''symbol'', PStr ''abc''), (''instrument_token'', PInt 1001),
           (''transaction_type'', PStr ''buy''), (''quantity'', PInt 1), (''price'', PInt 0)]),
      (4, [(''symbol'', PStr ''xyz''), (''instrument_token'', PInt 2002),
           (''transaction_type'', PStr ''buy''), (''quantity'', PInt 7), (''price'', PInt 50)])]"

definition batch_world :: world where
  "batch_world =
     \<lparr>net = (\<lambda>n req. case req of
                PostOrder p c \<Rightarrow>
                  if n = 3 then NoResponse
                  else Reply 200 (PDict [(''data'', PDict [(''order_id'', PStr (''ORD'' @ str_int (int n)))])])
              | GetPrice t c \<Rightarrow> NoResponse),
      clock = (\<lambda>n. 1700000000),
      now_iso = (\<lambda>n. ''2023-11-14T22:13:20'')\<rparr>"

text \<open>The order record of the fourth row of the sheet.\<close>

definition fourth_record :: order where
  "fourth_record =
     [(''symbol'', PStr ''abc''), (''instrument_token'', PInt 1001),
      (''transaction_type'', PStr ''BUY''), (''quantity'', PInt 1),
      (''price'', PFloat (Fin 0)), (''order_type'', PStr ''MARKET''),
      (''product'', PStr ''I''), (''time'', PStr ''2023-11-14T22:13:20''),
      (''status'', PStr ''placed''),
      (''response'', PDict [(''data'', PDict [(''order_id'', PStr ''ORD2'')])]),
      (''access_token'', PStr ''tok'')]"
section \<open>Basic facts\<close>

lemma say_simps [simp]:
  "active_orders (say msg st) = active_orders st"
  "stop_loss_orders (say msg st) = stop_loss_orders st"
  "requests (say msg st) = requests st"
  "printed (say msg st) = printed st @ [msg]"
  by (simp_all add: say_def)

lemma keys_mutate: "map fst (mutate_entry k w xs) = map fst xs"
  by (induction xs) (auto simp: mutate_entry_def)

lemma dom_mutate: "fst ` set (mutate_entry k w xs) = fst ` set xs"
  using keys_mutate [of k w xs] by (metis set_map)

lemma delete_mutate: "AList.delete k (mutate_entry k w xs) = AList.delete k xs"
  by (induction xs) (auto simp: mutate_entry_def AList.delete_eq)

lemma mutate_absent:
  "k \<notin> fst ` set xs \<Longrightarrow> mutate_entry k w xs = AList.delete k xs"
  by (induction xs) (auto simp: mutate_entry_def AList.delete_eq)


lemma execute_unfold:
  "execute_stop_loss B W k w c st =
     (case stop_loss_request B w of
        Inl e \<Rightarrow> say (ExecuteError k) st
      | Inr req \<Rightarrow>
          (case net W (length (requests st)) req of
             Reply code result \<Rightarrow>
               say (Executed k) (st\<lparr>requests := requests st @ [req],
                     stop_loss_orders := AList.delete k (stop_loss_orders st)\<rparr>)
           | _ \<Rightarrow> say (ExecuteError k) (st\<lparr>requests := requests st @ [req]\<rparr>)))"
proof (cases "stop_loss_request B w")
  case (Inl e)
  then show ?thesis by (simp add: execute_stop_loss_def)
next
  case (Inr req)
  show ?thesis
  proof (cases "net W (length (requests st)) req")
    case (Reply code result)
    with Inr show ?thesis
      by (simp add: execute_stop_loss_def Let_def say_def dom_mutate delete_mutate mutate_absent)
  qed (simp_all add: execute_stop_loss_def Let_def Inr)
qed


lemma execute_active [simp]:
  "active_orders (execute_stop_loss B W k w c st) = active_orders st"
  by (simp add: execute_unfold split: sum.splits reply.splits)

lemma execute_store:
  "stop_loss_orders (execute_stop_loss B W k w c st) =
     (case stop_loss_request B w of
        Inl e \<Rightarrow> stop_loss_orders st
      | Inr req \<Rightarrow>
          if is_reply (net W (length (requests st)) req) then AList.delete k (stop_loss_orders st)
          else stop_loss_orders st)"
  by (simp add: execute_unfold split: sum.splits reply.splits)

lemma execute_requests:
  "requests (execute_stop_loss B W k w c st) =
     (case stop_loss_request B w of Inl e \<Rightarrow> requests st | Inr req \<Rightarrow> requests st @ [req])"
  by (simp add: execute_unfold split: sum.splits reply.splits)

lemma execute_printed:
  "printed (execute_stop_loss B W k w c st) = printed st @ [Executed k] \<or>
   printed (execute_stop_loss B W k w c st) = printed st @ [ExecuteError k]"
  by (simp add: execute_unfold split: sum.splits reply.splits)


lemma price_lookup_state:
  assumes "get_current_price B W t a st = (c, st1)"
  shows "active_orders st1 = active_orders st"
    and "stop_loss_orders st1 = stop_loss_orders st"
    and "requests st1 = requests st @ [GetPrice t a]"
    and "printed st1 = printed st \<or> printed st1 = printed st @ [PriceError]
           \<or> printed st1 = printed st @ [PriceFailed t]"
  using assms
  by (auto simp: get_current_price_def Let_def split: reply.splits pyval.splits if_splits sum.splits)


lemma check_orders_active [simp]:
  "active_orders (check_orders B W t c st ids) = active_orders st"
  by (induction ids arbitrary: st) (auto split: option.splits sum.splits bool.splits)

lemma check_groups_active [simp]:
  "active_orders (check_groups B W a st g) = active_orders st"
proof (induction g arbitrary: st)
  case Nil
  show ?case by simp
next
  case (Cons p g)
  obtain t ids where p: "p = (t, ids)" by (cases p)
  obtain c st1 where l: "get_current_price B W t a st = (c, st1)" by (cases "get_current_price B W t a st")
  show ?case using Cons price_lookup_state(1) [OF l] by (simp add: p l)
qed

lemma monitor_keeps_active_orders:
  "active_orders (check_stop_losses B W st) = active_orders st"
  by (simp add: check_stop_losses_def Let_def split: list.splits sum.splits prod.splits)

section \<open>The end-to-end scenario, evaluated\<close>

lemma upper_abc: "upper (strip ''abc'') = ''ABC''"
  by (simp add: upper_def strip_def is_space_def upper_char_def)

lemma upper_defaults:
  "upper ''BUY'' = ''BUY''" "upper ''MARKET'' = ''MARKET''" "upper ''I'' = ''I''"
  by (simp_all add: upper_def upper_char_def)

lemma abc_prepare:
  "prepare_order plain_builtins abc_mapping abc_row =
     Inr (Some \<lparr> symbol = PStr ''abc'', instrument_token = PInt 1001, transaction_type = ''BUY'',
                 quantity = 10, price = Fin 100, order_type = ''MARKET'', product = ''I'',
                 stop_loss_price = PInt 95,
                 payload =
                   [(''quantity'', PInt 10), (''product'', PStr ''I''),
                    (''validity'', PStr ''DAY''), (''price'', PFloat (Fin 100)),
                    (''tag'', PStr ''excel-order''), (''instrument_token'', PInt 1001),
                    (''order_type'', PStr ''MARKET''), (''transaction_type'', PStr ''BUY''),
                    (''disclosed_quantity'', PInt 0), (''trigger_price'', PFloat (Fin 0)),
                    (''is_amo'', PBool False)] \<rparr>)"
  by (simp add: prepare_order_def resolve_token_def extract_details_def abc_mapping_def abc_row_def
        dget_def bind_def upper_abc py_bool_def upper_defaults)

lemma abc_ingested_eq:
  "abc_ingested =
     \<lparr>active_orders = [(PStr ''A1'', abc_record)],
      stop_loss_orders = [(PStr ''A1'', abc_watch)],
      requests =
        [PostOrder
          [(''quantity'', PInt 10), (''product'', PStr ''I''),
           (''validity'', PStr ''DAY''), (''price'', PFloat (Fin 100)),
           (''tag'', PStr ''excel-order''), (''instrument_token'', PInt 1001),
           (''order_type'', PStr ''MARKET''),
           (''transaction_type'', PStr ''BUY''),
           (''disclosed_quantity'', PInt 0),
           (''trigger_price'', PFloat (Fin 0)), (''is_amo'', PBool False)]
          (PStr ''tok'')],
      printed = [OrderPlaced 0]\<rparr>"
  by (simp add: abc_ingested_def process_excel_file_def process_row_def abc_prepare Let_def
        accepting_world_def store_order_def order_id_of_def bind_def empty_state_def
        order_record_def watch_record_def say_def abc_record_def abc_watch_def)

lemma str_1001: "str_int 1001 = ''1001''"
  by (simp add: str_int_def digit_char_def)

lemma abc_group: "group_tokens (stop_loss_orders abc_ingested) [] = Inr [(PInt 1001, [PStr ''A1''])]"
  by (simp add: abc_ingested_eq abc_watch_def dget_def)

lemma abc_price:
  "get_current_price plain_builtins (accepting_world c) (PInt 1001) a st =
     (c, st\<lparr>requests := requests st @ [GetPrice (PInt 1001) a]\<rparr>)"
  by (simp add: get_current_price_def accepting_world_def Let_def extract_price_def bind_def str_1001)

lemma abc_sell:
  "stop_loss_request plain_builtins abc_watch =
     Inr (PostOrder
            [(''quantity'', PInt 10), (''product'', PStr ''I''), (''validity'', PStr ''DAY''),
             (''price'', PInt 0), (''tag'', PStr ''stop-loss-order''),
             (''instrument_token'', PInt 1001), (''order_type'', PStr ''MARKET''),
             (''transaction_type'', PStr ''SELL''), (''disclosed_quantity'', PInt 0),
             (''trigger_price'', PInt 0), (''is_amo'', PBool False)]
            (PStr ''tok''))"
  by (simp add: stop_loss_request_def abc_watch_def dget_def bind_def)

lemma abc_triggered_94: "triggered plain_builtins (PInt 94) abc_watch = Inr True"
  by (simp add: triggered_def abc_watch_def dget_def bind_def)

lemma abc_triggered_96: "triggered plain_builtins (PInt 96) abc_watch = Inr False"
  by (simp add: triggered_def abc_watch_def dget_def bind_def)

lemma abc_pass_94:
  "check_stop_losses plain_builtins (accepting_world (PInt 94)) abc_ingested =
     abc_ingested
       \<lparr>stop_loss_orders := [],
        requests := requests abc_ingested @
          [GetPrice (PInt 1001) (PStr ''tok''),
           PostOrder
            [(''quantity'', PInt 10), (''product'', PStr ''I''), (''validity'', PStr ''DAY''),
             (''price'', PInt 0), (''tag'', PStr ''stop-loss-order''),
             (''instrument_token'', PInt 1001), (''order_type'', PStr ''MARKET''),
             (''transaction_type'', PStr ''SELL''), (''disclosed_quantity'', PInt 0),
             (''trigger_price'', PInt 0), (''is_amo'', PBool False)]
            (PStr ''tok'')],
        printed := [OrderPlaced 0, Checking 1, Triggered (PStr ''A1''), Executed (PStr ''A1'')]\<rparr>"
proof -
  have w: "dget abc_watch ''access_token'' PNone = PStr ''tok''"
    by (simp add: abc_watch_def dget_def)
  show ?thesis
    unfolding check_stop_losses_def abc_group
    by (simp add: abc_ingested_eq w abc_price abc_triggered_94 execute_unfold abc_sell say_def Let_def)
      (simp add: accepting_world_def say_def)
qed


lemma abc_pass_96:
  "check_stop_losses plain_builtins (accepting_world (PInt 96)) abc_ingested =
     abc_ingested
       \<lparr>requests := requests abc_ingested @ [GetPrice (PInt 1001) (PStr ''tok'')],
        printed := [OrderPlaced 0, Checking 1]\<rparr>"
proof -
  have w: "dget abc_watch ''access_token'' PNone = PStr ''tok''"
    by (simp add: abc_watch_def dget_def)
  show ?thesis
    unfolding check_stop_losses_def abc_group
    by (simp add: abc_ingested_eq w abc_price abc_triggered_96 say_def Let_def)
qed

section \<open>Watches that a pass leaves alone\<close>

lemma execute_other:
  assumes "k \<noteq> i"
  shows "map_of (stop_loss_orders (execute_stop_loss B W i w c st)) k = map_of (stop_loss_orders st) k"
  using assms by (simp add: execute_store split: sum.splits)

lemma execute_no_trigger:
  "Triggered k \<in> set (printed (execute_stop_loss B W i w c st)) \<longleftrightarrow> Triggered k \<in> set (printed st)"
  using execute_printed [of B W i w c st] by auto

lemma check_orders_keeps:
  assumes "map_of (stop_loss_orders st) k = Some w" and "triggered B c w = Inr False"
  shows "map_of (stop_loss_orders (check_orders B W t c st ids)) k = Some w
         \<and> (Triggered k \<in> set (printed (check_orders B W t c st ids)) \<longrightarrow> Triggered k \<in> set (printed st))"
  using assms
proof (induction ids arbitrary: st)
  case Nil
  then show ?case by simp
next
  case (Cons i ids)
  show ?case
  proof (cases "map_of (stop_loss_orders st) i")
    case None
    with Cons.prems show ?thesis by simp
  next
    case (Some w')
    show ?thesis
    proof (cases "triggered B c w'")
      case (Inl e)
      with Some Cons.prems show ?thesis by simp
    next
      case (Inr b)
      show ?thesis
      proof (cases b)
        case False
        with Some Inr Cons show ?thesis by simp
      next
        case True
        with Some Inr Cons.prems have ne: "k \<noteq> i" by auto
        let ?st' = "execute_stop_loss B W i w' c (say (Triggered i) st)"
        have "map_of (stop_loss_orders ?st') k = Some w"
          using ne Cons.prems(1) by (simp add: execute_other)
        from Cons.IH [OF this Cons.prems(2)]
        show ?thesis using Some Inr True ne by (simp add: execute_no_trigger)
      qed
    qed
  qed
qed

lemma check_groups_keeps:
  assumes "map_of (stop_loss_orders st) k = Some w" and "\<And>c. triggered B c w = Inr False"
  shows "map_of (stop_loss_orders (check_groups B W a st g)) k = Some w
         \<and> (Triggered k \<in> set (printed (check_groups B W a st g)) \<longrightarrow> Triggered k \<in> set (printed st))"
  using assms(1)
proof (induction g arbitrary: st)
  case Nil
  then show ?case by simp
next
  case (Cons p g)
  obtain t ids where p: "p = (t, ids)" by (cases p)
  obtain c st1 where l: "get_current_price B W t a st = (c, st1)"
    by (cases "get_current_price B W t a st")
  note f = price_lookup_state [OF l]
  have s1: "map_of (stop_loss_orders st1) k = Some w" using f(2) Cons.prems by simp
  have p1: "Triggered k \<in> set (printed st1) \<longleftrightarrow> Triggered k \<in> set (printed st)"
    using f(4) by auto
  let ?st2 = "if c = PNone then st1 else check_orders B W t c st1 ids"
  have "map_of (stop_loss_orders ?st2) k = Some w
        \<and> (Triggered k \<in> set (printed ?st2) \<longrightarrow> Triggered k \<in> set (printed st))"
    using check_orders_keeps [OF s1 assms(2), of W t c ids] s1 p1 by simp
  with Cons.IH [of ?st2] show ?case by (simp add: p l)
qed

lemma pass_keeps:
  assumes "map_of (stop_loss_orders st) k = Some w" and "\<And>c. triggered B c w = Inr False"
  shows "map_of (stop_loss_orders (check_stop_losses B W st)) k = Some w
         \<and> (Triggered k \<in> set (printed (check_stop_losses B W st)) \<longrightarrow> Triggered k \<in> set (printed st))"
proof (cases "stop_loss_orders st")
  case Nil
  with assms show ?thesis by (simp add: check_stop_losses_def)
next
  case (Cons p rest)
  obtain i w0 where p: "p = (i, w0)" by (cases p)
  let ?st0 = "say (Checking (length (stop_loss_orders st))) st"
  have s0: "map_of (stop_loss_orders ?st0) k = Some w" using assms(1) by simp
  show ?thesis
    using check_groups_keeps [OF s0 assms(2)] assms(1)
    by (auto simp: check_stop_losses_def Cons p Let_def split: sum.splits)
qed

lemma passes_keep:
  assumes "map_of (stop_loss_orders st) k = Some w" and "\<And>c. triggered B c w = Inr False"
  shows "map_of (stop_loss_orders ((check_stop_losses B W ^^ n) st)) k = Some w
         \<and> (Triggered k \<in> set (printed ((check_stop_losses B W ^^ n) st)) \<longrightarrow> Triggered k \<in> set (printed st))"
proof (induction n)
  case 0
  show ?case using assms(1) by simp
next
  case (Suc n)
  then show ?case using pass_keeps [OF _ assms(2), of "(check_stop_losses B W ^^ n) st" k W] by simp
qed

lemma zero_not_triggered:
  assumes "dget w ''stop_loss_price'' PNone = PFloat (Fin 0)"
  shows "triggered B c w = Inr False"
  using assms by (simp add: triggered_def)

section \<open>The trigger condition over the orders of one token\<close>

lemma triggered_float:
  assumes "dget w ''stop_loss_price'' PNone = PFloat f" and "price_value c = Some x"
  shows "triggered B c w = Inr (truthy (PFloat f) \<and> float_le (Fin x) f)"
  using assms by (cases c rule: price_value.cases) (auto simp: triggered_def bind_def Let_def)

lemma check_orders_triggers:
  assumes "distinct ids"
    and "\<forall>i\<in>set ids. \<exists>w f. map_of (stop_loss_orders st) i = Some w \<and> dget w ''stop_loss_price'' PNone = PFloat f"
    and "price_value c = Some x"
  shows "Triggered k \<in> set (printed (check_orders B W t c st ids)) \<longleftrightarrow>
           Triggered k \<in> set (printed st) \<or>
           (k \<in> set ids \<and> (\<exists>w f. map_of (stop_loss_orders st) k = Some w
              \<and> dget w ''stop_loss_price'' PNone = PFloat f \<and> truthy (PFloat f) \<and> float_le (Fin x) f))"
  using assms(1,2)
proof (induction ids arbitrary: st)
  case Nil
  then show ?case by simp
next
  case (Cons i ids)
  from Cons.prems obtain w f where w: "map_of (stop_loss_orders st) i = Some w"
    and f: "dget w ''stop_loss_price'' PNone = PFloat f" by auto
  note tr = triggered_float [OF f assms(3), of B]
  show ?case
  proof (cases "truthy (PFloat f) \<and> float_le (Fin x) f")
    case False
    have rest: "\<forall>j\<in>set ids. \<exists>w f. map_of (stop_loss_orders st) j = Some w \<and> dget w ''stop_loss_price'' PNone = PFloat f"
      using Cons.prems by simp
    have "check_orders B W t c st (i # ids) = check_orders B W t c st ids"
      using w tr False by simp
    moreover have "distinct ids" using Cons.prems by simp
    ultimately show ?thesis using Cons.IH [OF _ rest] False w f by auto
  next
    case True
    let ?st' = "execute_stop_loss B W i w c (say (Triggered i) st)"
    have step: "check_orders B W t c st (i # ids) = check_orders B W t c ?st' ids"
      using w tr True by simp
    have notin: "i \<notin> set ids" and d: "distinct ids" using Cons.prems by simp_all
    have same: "\<And>j. j \<in> set ids \<Longrightarrow> map_of (stop_loss_orders ?st') j = map_of (stop_loss_orders st) j"
      using notin by (subst execute_other) auto
    have rest: "\<forall>j\<in>set ids. \<exists>w f. map_of (stop_loss_orders ?st') j = Some w \<and> dget w ''stop_loss_price'' PNone = PFloat f"
      using Cons.prems same by simp
    have pr: "Triggered k \<in> set (printed ?st') \<longleftrightarrow> Triggered k \<in> set (printed st) \<or> k = i"
      by (auto simp: execute_no_trigger)
    show ?thesis
      unfolding step using Cons.IH [OF d rest] pr same True w f notin by auto
  qed
qed

section \<open>A watch is retired at most once\<close>

lemma retired_frame:
  assumes "retired_once k st" and "stop_loss_orders st' = stop_loss_orders st"
    and "printed st' = printed st @ ms" and "Executed k \<notin> set ms"
  shows "retired_once k st'"
  using assms by (simp add: retired_once_def)

lemma retired_say:
  assumes "retired_once k st" and "msg \<noteq> Executed k"
  shows "retired_once k (say msg st)"
  using assms by (intro retired_frame [OF assms(1), where ms = "[msg]"]) simp_all

lemma retired_execute:
  assumes "retired_once k st" and "map_of (stop_loss_orders st) i = Some w"
  shows "retired_once k (execute_stop_loss B W i w c st)"
proof (cases "i = k")
  case True
  from assms(2) have "i \<in> fst ` set (stop_loss_orders st)"
    by (metis domI dom_map_of_conv_image_fst)
  with True assms(1) have "Executed k \<notin> set (printed st)" and "k \<in> fst ` set (stop_loss_orders st)"
    by (auto simp: retired_once_def)
  then show ?thesis
    using True
    by (auto simp: execute_unfold retired_once_def AList.delete_notin_dom
          split: sum.splits reply.splits)
next
  case False
  have "k \<in> fst ` set (AList.delete i (stop_loss_orders st)) \<longleftrightarrow> k \<in> fst ` set (stop_loss_orders st)"
    using False by (auto simp: AList.delete_eq)
  with False assms(1) show ?thesis
    by (auto simp: execute_unfold retired_once_def split: sum.splits reply.splits)
qed

lemma retired_check_orders:
  assumes "retired_once k st"
  shows "retired_once k (check_orders B W t c st ids)"
  using assms
proof (induction ids arbitrary: st)
  case Nil
  then show ?case by simp
next
  case (Cons i ids)
  show ?case
  proof (cases "map_of (stop_loss_orders st) i")
    case None
    with Cons.prems show ?thesis by (simp add: retired_say)
  next
    case (Some w)
    have "retired_once k (execute_stop_loss B W i w c (say (Triggered i) st))"
      using Some Cons.prems by (intro retired_execute) (simp_all add: retired_say)
    with Cons Some show ?thesis
      by (auto simp: retired_say split: sum.splits bool.splits)
  qed
qed

lemma retired_lookup:
  assumes "get_current_price B W t a st = (c, st1)" and "retired_once k st"
  shows "retired_once k st1"
proof -
  note f = price_lookup_state [OF assms(1)]
  from f(4) consider "printed st1 = printed st @ []" | "printed st1 = printed st @ [PriceError]"
    | "printed st1 = printed st @ [PriceFailed t]" by auto
  then show ?thesis
    by cases (rule retired_frame [OF assms(2) f(2)], assumption, simp)+
qed

lemma retired_check_groups:
  assumes "retired_once k st"
  shows "retired_once k (check_groups B W a st g)"
  using assms
proof (induction g arbitrary: st)
  case Nil
  then show ?case by simp
next
  case (Cons p g)
  obtain t ids where p: "p = (t, ids)" by (cases p)
  obtain c st1 where l: "get_current_price B W t a st = (c, st1)"
    by (cases "get_current_price B W t a st")
  have "retired_once k st1" using retired_lookup [OF l Cons.prems] .
  then have "retired_once k (if c = PNone then st1 else check_orders B W t c st1 ids)"
    by (simp add: retired_check_orders)
  from Cons.IH [OF this] show ?case by (simp add: p l)
qed

lemma retired_pass:
  assumes "retired_once k st"
  shows "retired_once k (check_stop_losses B W st)"
  using assms
  by (auto simp: check_stop_losses_def Let_def retired_say retired_check_groups
        split: list.splits sum.splits)

lemma retired_passes:
  assumes "retired_once k st"
  shows "retired_once k ((check_stop_losses B W ^^ n) st)"
  by (induction n) (simp_all add: assms retired_pass)

section \<open>A rejected liquidation, evaluated\<close>

lemma rejecting_price:
  "get_current_price plain_builtins (rejecting_world c) (PInt 1001) a st =
     (c, st\<lparr>requests := requests st @ [GetPrice (PInt 1001) a]\<rparr>)"
  by (simp add: get_current_price_def rejecting_world_def Let_def extract_price_def bind_def str_1001)

lemma abc_sell_request: "stop_loss_request plain_builtins abc_watch = Inr abc_sell_request"
  by (simp add: abc_sell abc_sell_request_def)

lemma rejecting_reply:
  "net (rejecting_world c) n abc_sell_request =
     Reply 400 (PDict [(''status'', PStr ''error''),
                       (''errors'', PList [PDict [(''message'', PStr ''Insufficient funds'')]])])"
  by (simp add: rejecting_world_def abc_sell_request_def)

lemma abc_pass_rejected:
  "check_stop_losses plain_builtins (rejecting_world (PInt 94)) abc_ingested =
     abc_ingested
       \<lparr>stop_loss_orders := [],
        requests := requests abc_ingested @ [GetPrice (PInt 1001) (PStr ''tok''), abc_sell_request],
        printed := [OrderPlaced 0, Checking 1, Triggered (PStr ''A1''), Executed (PStr ''A1'')]\<rparr>"
proof -
  have w: "dget abc_watch ''access_token'' PNone = PStr ''tok''"
    by (simp add: abc_watch_def dget_def)
  show ?thesis
    unfolding check_stop_losses_def abc_group
    by (simp add: abc_ingested_eq w rejecting_price abc_triggered_94 execute_unfold abc_sell_request
          rejecting_reply say_def Let_def)
qed

lemma pass_empty_store:
  "stop_loss_orders st = [] \<Longrightarrow> check_stop_losses B W st = st"
  by (simp add: check_stop_losses_def)

section \<open>The price lookups of a pass\<close>

lemma lookups_append: "lookups (xs @ ys) = lookups xs @ lookups ys"
  by (induction xs rule: lookups.induct) auto

lemma stop_loss_request_post:
  "stop_loss_request B w = Inr req \<Longrightarrow> \<exists>p a. req = PostOrder p a"
  by (auto simp: stop_loss_request_def bind_def split: option.splits sum.splits)

lemma lookups_execute:
  "lookups (requests (execute_stop_loss B W i w c st)) = lookups (requests st)"
proof (cases "stop_loss_request B w")
  case (Inl e)
  then show ?thesis by (simp add: execute_requests)
next
  case (Inr req)
  then obtain p a where "req = PostOrder p a" using stop_loss_request_post by blast
  with Inr show ?thesis by (simp add: execute_requests lookups_append)
qed

lemma lookups_check_orders:
  "lookups (requests (check_orders B W t c st ids)) = lookups (requests st)"
  by (induction ids arbitrary: st)
     (auto simp: lookups_execute split: option.splits sum.splits bool.splits)

lemma lookups_check_groups:
  "lookups (requests (check_groups B W a st g)) = lookups (requests st) @ map (\<lambda>(t, ids). (t, a)) g"
proof (induction g arbitrary: st)
  case Nil
  show ?case by simp
next
  case (Cons p g)
  obtain t ids where p: "p = (t, ids)" by (cases p)
  obtain c st1 where l: "get_current_price B W t a st = (c, st1)"
    by (cases "get_current_price B W t a st")
  have r: "lookups (requests st1) = lookups (requests st) @ [(t, a)]"
    using price_lookup_state(3) [OF l] by (simp add: lookups_append)
  show ?case using Cons.IH r by (simp add: p l lookups_check_orders)
qed

lemma group_keys_simps [simp]:
  "group_keys [] = []" "group_keys ((t, ids) # g) = hash_key t # group_keys g"
  by (simp_all add: group_keys_def)

lemma keys_add_to_group:
  "group_keys (add_to_group t i g) =
     (if hash_key t \<in> set (group_keys g) then group_keys g
      else group_keys g @ [hash_key t])"
  by (induction t i g rule: add_to_group.induct) auto

lemma tokens_add_to_group:
  "fst ` set (add_to_group t i g) \<subseteq> insert t (fst ` set g)"
  by (induction t i g rule: add_to_group.induct) auto

lemma tokens_of_Cons:
  "tokens_of ((k, w) # ws) =
     (if truthy (dget w ''instrument_token'' PNone) then dget w ''instrument_token'' PNone # tokens_of ws
      else tokens_of ws)"
  by (simp add: tokens_of_def)

lemma group_tokens_keys:
  assumes "group_tokens ws g0 = Inr g" and "distinct (group_keys g0)"
  shows "distinct (group_keys g)
         \<and> set (group_keys g) = set (group_keys g0) \<union> hash_key ` set (tokens_of ws)
         \<and> fst ` set g \<subseteq> fst ` set g0 \<union> set (tokens_of ws)"
  using assms
proof (induction ws arbitrary: g0)
  case Nil
  then show ?case by (simp add: tokens_of_def)
next
  case (Cons p ws)
  obtain k w where p: "p = (k, w)" by (cases p)
  let ?t = "dget w ''instrument_token'' PNone"
  show ?case
  proof (cases "truthy ?t")
    case False
    with Cons.prems have "group_tokens ws g0 = Inr g" by (simp add: p Let_def)
    from Cons.IH [OF this Cons.prems(2)] False show ?thesis by (simp add: p tokens_of_Cons)
  next
    case True
    with Cons.prems have g: "group_tokens ws (add_to_group ?t k g0) = Inr g"
      by (simp add: p Let_def split: sum.splits)
    have d: "distinct (group_keys (add_to_group ?t k g0))"
      using Cons.prems(2) by (simp add: keys_add_to_group)
    have s: "set (group_keys (add_to_group ?t k g0)) =
               insert (hash_key ?t) (set (group_keys g0))"
      by (auto simp: keys_add_to_group)
    from Cons.IH [OF g d] have i1: "distinct (group_keys g)"
      and i2: "set (group_keys g) = set (group_keys (add_to_group ?t k g0)) \<union> hash_key ` set (tokens_of ws)"
      and i3: "fst ` set g \<subseteq> fst ` set (add_to_group ?t k g0) \<union> set (tokens_of ws)"
      by blast+
    have t: "tokens_of (p # ws) = ?t # tokens_of ws" using True by (simp add: p tokens_of_Cons)
    have c2: "set (group_keys g) = set (group_keys g0) \<union> hash_key ` set (tokens_of (p # ws))"
      unfolding t i2 s by auto
    have c3: "fst ` set g \<subseteq> fst ` set g0 \<union> set (tokens_of (p # ws))"
      unfolding t using i3 tokens_add_to_group [of ?t k g0] by auto
    from i1 c2 c3 show ?thesis by blast
  qed
qed

lemma group_tokens_total:
  assumes "\<forall>t\<in>set (tokens_of ws). \<exists>k. hash_key t = Inr k"
  shows "\<exists>g. group_tokens ws g0 = Inr g"
  using assms
proof (induction ws arbitrary: g0)
  case Nil
  show ?case by simp
next
  case (Cons p ws)
  obtain k w where p: "p = (k, w)" by (cases p)
  let ?t = "dget w ''instrument_token'' PNone"
  show ?case
  proof (cases "truthy ?t")
    case False
    with Cons.prems have "\<forall>t\<in>set (tokens_of ws). \<exists>k. hash_key t = Inr k"
      by (simp add: p tokens_of_Cons)
    from Cons.IH [OF this, of g0] False show ?thesis by (simp add: p Let_def)
  next
    case True
    with Cons.prems have h: "\<exists>k. hash_key ?t = Inr k"
      and r: "\<forall>t\<in>set (tokens_of ws). \<exists>k. hash_key t = Inr k"
      by (simp_all add: p tokens_of_Cons)
    from h obtain k' where k': "hash_key ?t = Inr k'" by blast
    from Cons.IH [OF r, of "add_to_group ?t k g0"] True k' show ?thesis by (simp add: p Let_def)
  qed
qed

lemma pass_closed:
  assumes "stop_loss_orders st \<noteq> []" and "\<not> truthy (pass_credential st)"
  shows "check_stop_losses B W st = say NoAccessToken (say (Checking (length (stop_loss_orders st))) st)"
proof -
  from assms(1) obtain i w rest where s: "stop_loss_orders st = (i, w) # rest"
    by (cases "stop_loss_orders st") auto
  with assms(2) have "\<not> truthy (dget w ''access_token'' PNone)" by (simp add: pass_credential_def)
  then show ?thesis by (simp add: check_stop_losses_def s Let_def)
qed

lemma pass_open:
  assumes "truthy (pass_credential st)"
  shows "check_stop_losses B W st =
           (case group_tokens (stop_loss_orders st) [] of
              Inl e \<Rightarrow> say (Checking (length (stop_loss_orders st))) st
            | Inr g \<Rightarrow> check_groups B W (pass_credential st) (say (Checking (length (stop_loss_orders st))) st) g)"
proof -
  from assms obtain i w rest where s: "stop_loss_orders st = (i, w) # rest"
    by (cases "stop_loss_orders st") (auto simp: pass_credential_def)
  with assms have t: "truthy (dget w ''access_token'' PNone)"
    and c: "pass_credential st = dget w ''access_token'' PNone" by (simp_all add: pass_credential_def)
  show ?thesis
    unfolding c check_stop_losses_def Let_def using t by (simp add: s del: group_tokens.simps)
qed

lemma lookups_pass:
  "lookups (requests (check_stop_losses B W st)) = lookups (requests st) @ pass_lookups st"
proof (cases "truthy (pass_credential st)")
  case True
  show ?thesis
  proof (cases "group_tokens (stop_loss_orders st) []")
    case (Inl e)
    with True show ?thesis by (simp add: pass_open pass_lookups_def)
  next
    case (Inr g)
    with True show ?thesis by (simp add: pass_open pass_lookups_def lookups_check_groups)
  qed
next
  case False
  show ?thesis
  proof (cases "stop_loss_orders st = []")
    case True
    with False show ?thesis by (simp add: pass_empty_store pass_lookups_def)
  next
    case ne: False
    from pass_closed [OF ne False] False show ?thesis by (simp add: pass_lookups_def)
  qed
qed

lemma lookup_creds_groups: "snd ` set (map (\<lambda>(t, ids). (t, a)) g) \<subseteq> {a}"
  by (induction g) auto

lemma pass_lookups_credential: "snd ` set (pass_lookups st) \<subseteq> {pass_credential st}"
proof (cases "group_tokens (stop_loss_orders st) []")
  case (Inl e)
  then have "pass_lookups st = []" by (simp add: pass_lookups_def)
  then show ?thesis by simp
next
  case (Inr g)
  show ?thesis
  proof (cases "truthy (pass_credential st)")
    case True
    have "pass_lookups st = map (\<lambda>(t, ids). (t, pass_credential st)) g"
      using True Inr by (simp add: pass_lookups_def)
    then show ?thesis using lookup_creds_groups [of "pass_credential st" g] by simp
  next
    case False
    then have "pass_lookups st = []" by (simp add: pass_lookups_def)
    then show ?thesis by simp
  qed
qed

lemma lookup_keys_groups: "lookup_keys (map (\<lambda>(t, ids). (t, a)) g) = group_keys g"
  by (induction g) (auto simp: group_keys_def lookup_keys_def)

lemma lookup_tokens_groups: "fst ` set (map (\<lambda>(t, ids). (t, a)) g) = fst ` set g"
  by (induction g) auto

lemma pass_lookups_distinct: "distinct (lookup_keys (pass_lookups st))"
proof (cases "group_tokens (stop_loss_orders st) []")
  case (Inl e)
  then show ?thesis by (simp add: pass_lookups_def lookup_keys_def)
next
  case (Inr g)
  from group_tokens_keys [OF Inr] have d: "distinct (group_keys g)" by simp
  show ?thesis
  proof (cases "truthy (pass_credential st)")
    case True
    with Inr d show ?thesis by (simp add: pass_lookups_def lookup_keys_groups)
  next
    case False
    then show ?thesis by (simp add: pass_lookups_def lookup_keys_def)
  qed
qed

lemma pass_lookups_tokens: "fst ` set (pass_lookups st) \<subseteq> set (tokens_of (stop_loss_orders st))"
proof (cases "group_tokens (stop_loss_orders st) []")
  case (Inl e)
  then have "pass_lookups st = []" by (simp add: pass_lookups_def)
  then show ?thesis by simp
next
  case (Inr g)
  from group_tokens_keys [OF Inr] have g: "fst ` set g \<subseteq> set (tokens_of (stop_loss_orders st))" by simp
  show ?thesis
  proof (cases "truthy (pass_credential st)")
    case True
    have "pass_lookups st = map (\<lambda>(t, ids). (t, pass_credential st)) g"
      using True Inr by (simp add: pass_lookups_def)
    then show ?thesis using g lookup_tokens_groups [of "pass_credential st" g] by simp
  next
    case False
    then have "pass_lookups st = []" by (simp add: pass_lookups_def)
    then show ?thesis by simp
  qed
qed

lemma pass_lookups_keys:
  assumes "truthy (pass_credential st)"
    and "\<forall>t\<in>set (tokens_of (stop_loss_orders st)). \<exists>k. hash_key t = Inr k"
  shows "set (lookup_keys (pass_lookups st)) = hash_key ` set (tokens_of (stop_loss_orders st))"
proof -
  from group_tokens_total [OF assms(2)] obtain g where g: "group_tokens (stop_loss_orders st) [] = Inr g"
    by blast
  from group_tokens_keys [OF g] have "set (group_keys g) = hash_key ` set (tokens_of (stop_loss_orders st))"
    by simp
  with g assms(1) show ?thesis by (simp add: pass_lookups_def lookup_keys_groups)
qed

lemma distinct_tokens_le:
  "card (hash_key ` set (tokens_of ws)) \<le> length ws"
proof -
  have "card (hash_key ` set (tokens_of ws)) \<le> card (set (tokens_of ws))"
    by (simp add: card_image_le)
  also have "\<dots> \<le> length (tokens_of ws)" by (rule card_length)
  also have "\<dots> \<le> length (map (\<lambda>(k, w). dget w ''instrument_token'' PNone) ws)"
    unfolding tokens_of_def by (rule length_filter_le)
  finally show ?thesis by simp
qed

lemma lookup_keys_set: "set (lookup_keys L) = hash_key ` fst ` set L"
  by (auto simp: lookup_keys_def image_iff) force

lemma pass_lookups_card:
  "length (pass_lookups st) = card (set (lookup_keys (pass_lookups st)))"
proof -
  have "length (pass_lookups st) = length (lookup_keys (pass_lookups st))" by (simp add: lookup_keys_def)
  also have "\<dots> = card (set (lookup_keys (pass_lookups st)))"
    using pass_lookups_distinct [of st] by (simp only: distinct_card)
  finally show ?thesis .
qed

lemma pass_lookups_le:
  "length (pass_lookups st) \<le> card (hash_key ` set (tokens_of (stop_loss_orders st)))"
proof -
  have "card (set (lookup_keys (pass_lookups st))) \<le> card (hash_key ` set (tokens_of (stop_loss_orders st)))"
  proof (rule card_mono)
    show "finite (hash_key ` set (tokens_of (stop_loss_orders st)))" by simp
    show "set (lookup_keys (pass_lookups st)) \<subseteq> hash_key ` set (tokens_of (stop_loss_orders st))"
      unfolding lookup_keys_set using pass_lookups_tokens [of st] by blast
  qed
  then show ?thesis by (simp only: pass_lookups_card)
qed

lemma pass_lookups_exact:
  assumes "truthy (pass_credential st)"
    and "\<forall>t\<in>set (tokens_of (stop_loss_orders st)). \<exists>k. hash_key t = Inr k"
  shows "length (pass_lookups st) = card (hash_key ` set (tokens_of (stop_loss_orders st)))"
  using pass_lookups_keys [OF assms] by (simp only: pass_lookups_card)

lemma check_groups_append:
  "check_groups B W a st (g1 @ g2) = check_groups B W a (check_groups B W a st g1) g2"
  by (induction g1 arbitrary: st) (auto split: prod.splits)

section \<open>Example stores, evaluated\<close>

lemma watch_fields:
  "dget abc_watch ''instrument_token'' PNone = PInt 1001"
  "dget abc_watch ''access_token'' PNone = PStr ''tok''"
  "dget other_watch ''instrument_token'' PNone = PInt 2002"
  "dget other_watch ''access_token'' PNone = PStr ''other''"
  "dget anonymous_watch ''instrument_token'' PNone = PInt 1001"
  "dget anonymous_watch ''access_token'' PNone = PStr []"
  by (simp_all add: abc_watch_def other_watch_def anonymous_watch_def dget_def)

lemma two_credentials_lookups:
  "pass_lookups two_credentials_state = [(PInt 1001, PStr ''tok''), (PInt 2002, PStr ''tok'')]"
  by (simp add: pass_lookups_def pass_credential_def two_credentials_state_def watch_fields)

lemma shared_lookups:
  "pass_lookups shared_state = [(PInt 1001, PStr ''tok''), (PInt 2002, PStr ''tok'')]"
  by (simp add: pass_lookups_def pass_credential_def shared_state_def watch_fields)

lemma shared_tokens:
  "tokens_of (stop_loss_orders shared_state) = [PInt 1001, PInt 2002, PInt 1001]"
  by (simp add: tokens_of_def shared_state_def watch_fields)

lemma anonymous_tokens: "tokens_of (stop_loss_orders anonymous_state) = [PInt 1001]"
  by (simp add: tokens_of_def anonymous_state_def watch_fields)

lemma anonymous_credential: "pass_credential anonymous_state = PStr []"
  by (simp add: pass_credential_def anonymous_state_def watch_fields)

section \<open>Loading the instrument dataset\<close>

lemma load_item_incomplete: "incomplete item \<Longrightarrow> load_item B m item = Inr m"
  by (auto simp: incomplete_def load_item_def split: option.splits)

lemma load_item_parsed:
  "parsed_entry B item = Some (k, t) \<Longrightarrow> load_item B m item = Inr (AList.update k t m)"
  by (auto simp: parsed_entry_def load_item_def split: option.splits pyval.splits sum.splits)

lemma load_item_malformed: "malformed B item \<Longrightarrow> \<exists>e. load_item B m item = Inl e"
  by (auto simp: malformed_def incomplete_def parsed_entry_def load_item_def
        split: option.splits pyval.splits sum.splits)

lemma entries_of_Cons:
  "entries_of B (item # items) =
     (case parsed_entry B item of None \<Rightarrow> entries_of B items | Some e \<Rightarrow> e # entries_of B items)"
  by (simp add: entries_of_def split: option.splits)

lemma load_items_clean:
  assumes "\<forall>item\<in>set items. \<not> malformed B item"
  shows "load_items B m items = (store_entries m (entries_of B items), None)"
  using assms
proof (induction items arbitrary: m)
  case Nil
  show ?case by (simp add: store_entries_def entries_of_def)
next
  case (Cons item items)
  then have nm: "\<not> malformed B item" and rest: "\<forall>item\<in>set items. \<not> malformed B item" by simp_all
  show ?case
  proof (cases "parsed_entry B item")
    case None
    with nm have "incomplete item" by (simp add: malformed_def)
    then show ?thesis
      using Cons.IH [OF rest] None by (simp add: load_item_incomplete entries_of_Cons)
  next
    case (Some e)
    obtain k t where e: "e = (k, t)" by (cases e)
    show ?thesis
      using Cons.IH [OF rest] Some e
      by (simp add: load_item_parsed entries_of_Cons store_entries_def)
  qed
qed

lemma load_items_append:
  "load_items B m (xs @ ys) =
     (case load_items B m xs of
        (m', None) \<Rightarrow> load_items B m' ys
      | (m', Some e) \<Rightarrow> (m', Some e))"
  by (induction xs arbitrary: m) (auto split: sum.splits)

lemma load_items_stop:
  assumes "\<forall>item\<in>set pre. \<not> malformed B item" and "malformed B bad"
  shows "\<exists>e. load_items B m (pre @ bad # post) = (store_entries m (entries_of B pre), Some e)"
proof -
  from load_item_malformed [OF assms(2)] obtain e
    where "load_item B (store_entries m (entries_of B pre)) bad = Inl e" by blast
  then show ?thesis by (simp add: load_items_append load_items_clean [OF assms(1)])
qed

lemma store_entries_snoc:
  "store_entries m (es @ [(k, t)]) = AList.update k t (store_entries m es)"
  by (simp add: store_entries_def)

lemma last_write_wins:
  "map_of (store_entries m es) k = (case map_of (rev es) k of None \<Rightarrow> map_of m k | Some t \<Rightarrow> Some t)"
proof (induction es rule: rev_induct)
  case Nil
  show ?case by (simp add: store_entries_def)
next
  case (snoc e es)
  obtain k' t where e: "e = (k', t)" by (cases e)
  show ?case using snoc by (simp add: e store_entries_snoc AList.update_conv')
qed

section \<open>Example datasets, evaluated\<close>

lemma upper_strip_examples:
  "upper (strip ''aa'') = ''AA''" "upper (strip ''cc'') = ''CC''" "upper (strip '' abc'') = ''ABC''"
  "upper (strip ''ABC '') = ''ABC''" "upper (strip ''q'') = ''Q''"
  by (simp_all add: upper_def strip_def is_space_def upper_char_def)

lemma broken_entries:
  "parsed_entry plain_builtins [(''symbol'', PStr ''aa''), (''instrument_token'', PInt 1)] = Some (''AA'', 1)"
  "malformed plain_builtins [(''symbol'', PNone), (''instrument_token'', PInt 2)]"
  "parsed_entry plain_builtins [(''symbol'', PStr ''cc''), (''instrument_token'', PInt 3)] = Some (''CC'', 3)"
  by (simp_all add: parsed_entry_def malformed_def incomplete_def upper_strip_examples)

lemma broken_load:
  "load_instrument_mapping plain_builtins [] (Parsed broken_dataset) = ([(''AA'', 1)], LoadError)"
  by (simp add: load_instrument_mapping_def broken_dataset_def load_item_def upper_strip_examples)

lemma clean_entries:
  "entries_of plain_builtins clean_dataset = [(''ABC'', 5), (''ABC'', 7), (''Q'', 9)]"
  by (simp add: entries_of_def clean_dataset_def parsed_entry_def upper_strip_examples)

lemma clean_not_malformed: "\<forall>item\<in>set clean_dataset. \<not> malformed plain_builtins item"
  by (simp add: clean_dataset_def malformed_def incomplete_def parsed_entry_def upper_strip_examples)

section \<open>Rows of an ingestion\<close>

lemma store_order_fail:
  assumes "bind (order_id_of result (manual_id (clock W (length (requests st))) idx)) hash_key = Inl e"
  shows "store_order B W tok idx d result st = say (RowError idx) st"
  using assms by (simp add: store_order_def Let_def)

lemma store_order_active:
  assumes "bind (order_id_of result (manual_id (clock W (length (requests st))) idx)) hash_key = Inr k"
  shows "active_orders (store_order B W tok idx d result st) =
           AList.update k (order_record d (now_iso W (length (requests st))) result tok) (active_orders st)"
  using assms by (simp add: store_order_def Let_def split: sum.splits)

lemma store_order_requests [simp]:
  "requests (store_order B W tok idx d result st) = requests st"
  by (simp add: store_order_def Let_def split: sum.splits)

lemma store_order_keys:
  "fst ` set (active_orders st) \<subseteq> fst ` set (active_orders (store_order B W tok idx d result st))"
proof (cases "bind (order_id_of result (manual_id (clock W (length (requests st))) idx)) hash_key")
  case (Inl e)
  then show ?thesis by (simp add: store_order_fail)
next
  case (Inr k)
  then show ?thesis by (auto simp: store_order_active AList.dom_update)
qed

lemma placed_update:
  assumes "list_all placed al" and "placed (k, r)"
  shows "list_all placed (AList.update k r al)"
  using assms by (induction al) (auto simp: placed_def)

lemma order_record_placed: "placed (k, order_record d now result tok)"
  by (simp add: placed_def order_record_def dget_def)

lemma store_order_placed:
  assumes "list_all placed (active_orders st)"
  shows "list_all placed (active_orders (store_order B W tok idx d result st))"
proof (cases "bind (order_id_of result (manual_id (clock W (length (requests st))) idx)) hash_key")
  case (Inl e)
  then show ?thesis using assms by (simp add: store_order_fail)
next
  case (Inr k)
  then show ?thesis using assms by (simp add: store_order_active placed_update order_record_placed)
qed

lemma process_row_failed:
  assumes "prepare_order B m (snd ir) = Inr (Some d)"
    and "\<not> is_reply (net W (length (requests st)) (PostOrder (payload d) (PStr tok)))"
  shows "process_row B W m tok st ir =
           say (RowError (fst ir)) (st\<lparr>requests := requests st @ [PostOrder (payload d) (PStr tok)]\<rparr>)"
  using assms
  by (cases "net W (length (requests st)) (PostOrder (payload d) (PStr tok))")
     (simp_all add: process_row_def Let_def)

lemma process_row_answered:
  assumes "prepare_order B m (snd ir) = Inr (Some d)"
    and "net W (length (requests st)) (PostOrder (payload d) (PStr tok)) = Reply code result"
  shows "process_row B W m tok st ir =
           store_order B W tok (fst ir) d result (st\<lparr>requests := requests st @ [PostOrder (payload d) (PStr tok)]\<rparr>)"
  using assms by (simp add: process_row_def Let_def)

lemma process_row_unprepared:
  "prepare_order B m (snd ir) = Inl e \<Longrightarrow> process_row B W m tok st ir = say (RowError (fst ir)) st"
  "prepare_order B m (snd ir) = Inr None \<Longrightarrow> process_row B W m tok st ir = say (SkippingRow (fst ir)) st"
  by (simp_all add: process_row_def)

lemma process_row_requests:
  "length (requests (process_row B W m tok st ir)) \<le> Suc (length (requests st))"
  by (simp add: process_row_def Let_def split: sum.splits option.splits reply.splits)

lemma process_row_keys:
  "fst ` set (active_orders st) \<subseteq> fst ` set (active_orders (process_row B W m tok st ir))"
proof (cases "prepare_order B m (snd ir)")
  case (Inl e)
  then show ?thesis by (simp add: process_row_unprepared)
next
  case (Inr p)
  show ?thesis
  proof (cases p)
    case None
    with Inr show ?thesis by (simp add: process_row_unprepared)
  next
    case (Some d)
    show ?thesis
    proof (cases "net W (length (requests st)) (PostOrder (payload d) (PStr tok))")
      case (Reply code result)
      show ?thesis
        unfolding process_row_answered [OF Inr [unfolded Some] Reply]
        using store_order_keys [of "st\<lparr>requests := requests st @ [PostOrder (payload d) (PStr tok)]\<rparr>"]
        by simp
    qed (use Inr Some in \<open>simp_all add: process_row_failed\<close>)
  qed
qed

lemma process_row_placed:
  assumes "list_all placed (active_orders st)"
  shows "list_all placed (active_orders (process_row B W m tok st ir))"
proof (cases "prepare_order B m (snd ir)")
  case (Inl e)
  then show ?thesis using assms by (simp add: process_row_unprepared)
next
  case (Inr p)
  show ?thesis
  proof (cases p)
    case None
    with Inr show ?thesis using assms by (simp add: process_row_unprepared)
  next
    case (Some d)
    show ?thesis
    proof (cases "net W (length (requests st)) (PostOrder (payload d) (PStr tok))")
      case (Reply code result)
      show ?thesis
        unfolding process_row_answered [OF Inr [unfolded Some] Reply]
        using assms by (intro store_order_placed) simp
    qed (use Inr Some assms in \<open>simp_all add: process_row_failed\<close>)
  qed
qed

lemma rows_keys:
  "fst ` set (active_orders st) \<subseteq> fst ` set (active_orders (foldl (process_row B W m tok) st rows))"
proof (induction rows arbitrary: st)
  case Nil
  show ?case by simp
next
  case (Cons ir rows)
  show ?case using process_row_keys [of st B W m tok ir] Cons [of "process_row B W m tok st ir"] by auto
qed

lemma rows_placed:
  assumes "list_all placed (active_orders st)"
  shows "list_all placed (active_orders (foldl (process_row B W m tok) st rows))"
  using assms by (induction rows arbitrary: st) (simp_all add: process_row_placed)

section \<open>Failed and rejected placements, evaluated\<close>

lemma abc_payload:
  "\<exists>d. prepare_order plain_builtins abc_mapping abc_row = Inr (Some d)
       \<and> PostOrder (payload d) (PStr ''tok'') = abc_buy_request"
  by (simp add: abc_prepare abc_buy_request_def)

lemma abc_silent:
  "process_excel_file plain_builtins silent_world abc_mapping ''tok'' (Some [(0, abc_row)]) empty_state =
     \<lparr>active_orders = [], stop_loss_orders = [], requests = [abc_buy_request], printed = [RowError 0]\<rparr>"
  by (simp add: process_excel_file_def process_row_def abc_prepare Let_def silent_world_def
        empty_state_def say_def abc_buy_request_def)

lemma manual_id_example: "manual_id 1700000000 0 = PStr ''manual-1700000000-0''"
  by (simp add: manual_id_def str_int_def digit_char_def)

lemma abc_rejected:
  "active_orders (process_excel_file plain_builtins (rejecting_world (PInt 94)) abc_mapping ''tok''
      (Some [(0, abc_row)]) empty_state) =
     [(PStr ''manual-1700000000-0'',
       [(''symbol'', PStr ''abc''), (''instrument_token'', PInt 1001),
        (''transaction_type'', PStr ''BUY''), (''quantity'', PInt 10),
        (''price'', PFloat (Fin 100)), (''order_type'', PStr ''MARKET''),
        (''product'', PStr ''I''), (''time'', PStr ''2023-11-14T22:13:20''),
        (''status'', PStr ''placed''),
        (''response'', PDict [(''status'', PStr ''error''),
            (''errors'', PList [PDict [(''message'', PStr ''Insufficient funds'')]])]),
        (''access_token'', PStr ''tok'')])]"
proof -
  have c: "clock (rejecting_world (PInt 94)) n = 1700000000" for n
    by (simp add: rejecting_world_def)
  have r: "net (rejecting_world (PInt 94)) n (PostOrder p a) =
      Reply 400 (PDict [(''status'', PStr ''error''),
            (''errors'', PList [PDict [(''message'', PStr ''Insufficient funds'')]])])" for n p a
    by (simp add: rejecting_world_def)
  have t: "now_iso (rejecting_world (PInt 94)) n = ''2023-11-14T22:13:20''" for n
    by (simp add: rejecting_world_def)
  show ?thesis
    by (simp add: process_excel_file_def process_row_def abc_prepare Let_def r store_order_def c t
          order_id_of_def bind_def manual_id_example empty_state_def order_record_def watch_record_def say_def)
qed

section \<open>What a row leaves\<close>

lemma process_row_stored:
  assumes "prepare_order B m (snd ir) = Inr (Some d)"
    and "net W (length (requests st)) (PostOrder (payload d) (PStr tok)) = Reply code result"
    and "bind (order_id_of result (manual_id (clock W (Suc (length (requests st)))) (fst ir))) hash_key = Inr k"
  shows "map_of (active_orders (process_row B W m tok st ir)) k =
           Some (order_record d (now_iso W (Suc (length (requests st)))) result tok)"
proof -
  let ?st1 = "st\<lparr>requests := requests st @ [PostOrder (payload d) (PStr tok)]\<rparr>"
  have l: "length (requests ?st1) = Suc (length (requests st))" by simp
  have "active_orders (store_order B W tok (fst ir) d result ?st1) =
          AList.update k (order_record d (now_iso W (length (requests ?st1))) result tok) (active_orders ?st1)"
    by (rule store_order_active) (simp only: l assms(3))
  then show ?thesis
    by (simp add: process_row_answered [OF assms(1,2)] AList.update_conv')
qed

lemma row_fails_frame:
  assumes "row_fails B W m tok st ir"
  shows "active_orders (process_row B W m tok st ir) = active_orders st
         \<and> stop_loss_orders (process_row B W m tok st ir) = stop_loss_orders st"
proof (cases "prepare_order B m (snd ir)")
  case (Inl e)
  then show ?thesis by (simp add: process_row_unprepared)
next
  case (Inr p)
  show ?thesis
  proof (cases p)
    case None
    with Inr show ?thesis by (simp add: process_row_unprepared)
  next
    case (Some d)
    with Inr assms have "\<not> is_reply (net W (length (requests st)) (PostOrder (payload d) (PStr tok)))"
      by (simp add: row_fails_def)
    from process_row_failed [OF Inr [unfolded Some] this] show ?thesis by simp
  qed
qed

section \<open>Resolution of the token of a row\<close>

lemma resolve_normalizes:
  "get_instrument_token m (PStr s) =
     Inr (if s = [] then PNone
          else case map_of m (upper (strip s)) of None \<Rightarrow> PNone | Some t \<Rightarrow> PInt t)"
  by (simp split: option.splits)

lemma resolve_after_load:
  assumes "parsed_entry B item = Some (k, t)" and "upper (strip s) = k" and "s \<noteq> []"
  shows "\<exists>m'. load_item B m item = Inr m' \<and> get_instrument_token m' (PStr s) = Inr (PInt t)"
  using assms by (simp add: load_item_parsed AList.update_conv')

lemma resolve_token_by_symbol:
  assumes "\<not> truthy (dget row ''instrument_token'' PNone)"
    and "dget row ''symbol'' (PStr []) = PStr s" and "s \<noteq> []"
  shows "resolve_token m row =
           Inr (case map_of m (upper (strip s)) of
                  None \<Rightarrow> None
                | Some t \<Rightarrow> if t = 0 then None else Some (PInt t))"
  using assms by (simp add: resolve_token_def Let_def bind_def split: option.splits)

lemma unresolved_row_skipped:
  assumes "resolve_token m (snd ir) = Inr None"
  shows "process_row B W m tok st ir = say (SkippingRow (fst ir)) st"
  using assms by (simp add: process_row_def prepare_order_def bind_def)

lemma blank_token_prepare:
  "resolve_token abc_mapping blank_token_row = Inr (Some (PFloat NaN))"
  "prepare_order plain_builtins abc_mapping blank_token_row = Inl ValueError"
  by (simp_all add: prepare_order_def resolve_token_def extract_details_def blank_token_row_def
        dget_def bind_def upper_defaults)

section \<open>Counting the liquidations\<close>

lemma liquidations_append [simp]:
  "liquidations k (xs @ ys) = liquidations k xs + liquidations k ys"
  by (simp add: liquidations_def)

lemma liquidations_single [simp]:
  "liquidations k [Executed i] = (if i = k then 1 else 0)"
  "liquidations k [ExecuteError i] = (if i = k then 1 else 0)"
  "liquidations k [Triggered i] = 0"
  "liquidations k [CheckError t] = 0"
  "liquidations k [PriceError] = 0"
  "liquidations k [PriceFailed t] = 0"
  "liquidations k [Checking n] = 0"
  "liquidations k [NoAccessToken] = 0"
  by (simp_all add: liquidations_def)

lemma execute_counts:
  "count_list (printed (execute_stop_loss B W i w c st)) (Triggered k) = count_list (printed st) (Triggered k)"
  "liquidations k (printed (execute_stop_loss B W i w c st)) =
     liquidations k (printed st) + (if i = k then 1 else 0)"
  "count_list (requests (execute_stop_loss B W i w c st)) req =
     count_list (requests st) req + (if stop_loss_request B w = Inr req then 1 else 0)"
  using execute_printed [of B W i w c st]
  by (auto simp: execute_requests split: sum.splits)

lemma check_orders_frame:
  "(\<forall>j. j \<notin> set ids \<longrightarrow>
       map_of (stop_loss_orders (check_orders B W t c st ids)) j = map_of (stop_loss_orders st) j
       \<and> count_list (printed (check_orders B W t c st ids)) (Triggered j) = count_list (printed st) (Triggered j)
       \<and> liquidations j (printed (check_orders B W t c st ids)) = liquidations j (printed st))
   \<and> count_list (requests st) req \<le> count_list (requests (check_orders B W t c st ids)) req"
proof (induction ids arbitrary: st)
  case Nil
  show ?case by simp
next
  case (Cons i ids)
  show ?case
  proof (cases "map_of (stop_loss_orders st) i")
    case None
    then show ?thesis by simp
  next
    case (Some w)
    show ?thesis
    proof (cases "triggered B c w")
      case (Inl e)
      with Some show ?thesis by simp
    next
      case (Inr b)
      show ?thesis
      proof (cases b)
        case False
        with Some Inr Cons.IH [of st] show ?thesis by simp
      next
        case True
        let ?st' = "execute_stop_loss B W i w c (say (Triggered i) st)"
        have step: "check_orders B W t c st (i # ids) = check_orders B W t c ?st' ids"
          using Some Inr True by simp
        have a: "\<And>j. j \<noteq> i \<Longrightarrow> map_of (stop_loss_orders ?st') j = map_of (stop_loss_orders st) j"
          by (simp add: execute_other)
        have b: "\<And>j. j \<noteq> i \<Longrightarrow> count_list (printed ?st') (Triggered j) = count_list (printed st) (Triggered j)"
          by (simp add: execute_counts)
        have c: "\<And>j. j \<noteq> i \<Longrightarrow> liquidations j (printed ?st') = liquidations j (printed st)"
          by (simp add: execute_counts)
        have d: "count_list (requests st) req \<le> count_list (requests ?st') req"
          by (simp add: execute_counts)
        from Cons.IH [of ?st'] a b c d show ?thesis unfolding step by auto
      qed
    qed
  qed
qed

lemma check_orders_evaluates:
  assumes "distinct ids"
    and "\<forall>i\<in>set ids. \<exists>w f. map_of (stop_loss_orders st) i = Some w \<and> dget w ''stop_loss_price'' PNone = PFloat f"
    and "price_value c = Some x"
    and "k \<in> set ids"
    and "map_of (stop_loss_orders st) k = Some w"
    and "dget w ''stop_loss_price'' PNone = PFloat (Fin P)"
  shows "count_list (printed (check_orders B W t c st ids)) (Triggered k) =
           count_list (printed st) (Triggered k) + (if P \<noteq> 0 \<and> x \<le> P then 1 else 0)
       \<and> liquidations k (printed (check_orders B W t c st ids)) =
           liquidations k (printed st) + (if P \<noteq> 0 \<and> x \<le> P then 1 else 0)
       \<and> (P \<noteq> 0 \<and> x \<le> P \<and> stop_loss_request B w = Inr req \<longrightarrow>
            count_list (requests st) req < count_list (requests (check_orders B W t c st ids)) req)"
  using assms(1,2,4,5)
proof (induction ids arbitrary: st)
  case Nil
  then show ?case by simp
next
  case (Cons i ids)
  from Cons.prems obtain wi fi where wi: "map_of (stop_loss_orders st) i = Some wi"
    and fi: "dget wi ''stop_loss_price'' PNone = PFloat fi" by auto
  note tr = triggered_float [OF fi assms(3), of B]
  have notin: "i \<notin> set ids" and d: "distinct ids" using Cons.prems by simp_all
  let ?b = "truthy (PFloat fi) \<and> float_le (Fin x) fi"
  let ?st' = "if ?b then execute_stop_loss B W i wi c (say (Triggered i) st) else st"
  have step: "check_orders B W t c st (i # ids) = check_orders B W t c ?st' ids"
    using wi tr by (cases ?b) auto
  have same: "\<And>j. j \<noteq> i \<Longrightarrow> map_of (stop_loss_orders ?st') j = map_of (stop_loss_orders st) j"
    by (simp add: execute_other)
  show ?case
  proof (cases "i = k")
    case True
    with wi fi Cons.prems assms(6) have eq: "wi = w" "fi = Fin P" by simp_all
    have b: "?b \<longleftrightarrow> P \<noteq> 0 \<and> x \<le> P" by (simp add: eq)
    from notin True have kn: "k \<notin> set ids" by simp
    note fr = check_orders_frame [of ids B W t c ?st' req]
    from fr kn have f1: "count_list (printed (check_orders B W t c ?st' ids)) (Triggered k) =
        count_list (printed ?st') (Triggered k)"
      and f2: "liquidations k (printed (check_orders B W t c ?st' ids)) = liquidations k (printed ?st')"
      and f3: "count_list (requests ?st') req \<le> count_list (requests (check_orders B W t c ?st' ids)) req"
      by blast+
    have p1: "count_list (printed ?st') (Triggered k) =
        count_list (printed st) (Triggered k) + (if P \<noteq> 0 \<and> x \<le> P then 1 else 0)"
      using b True by (simp add: execute_counts)
    have p2: "liquidations k (printed ?st') = liquidations k (printed st) + (if P \<noteq> 0 \<and> x \<le> P then 1 else 0)"
      using b True by (simp add: execute_counts)
    have p3: "P \<noteq> 0 \<and> x \<le> P \<and> stop_loss_request B w = Inr req \<longrightarrow>
        count_list (requests st) req < count_list (requests ?st') req"
      using b eq by (simp add: execute_counts)
    from f1 f2 f3 p1 p2 p3 show ?thesis unfolding step by (auto simp: less_le_trans)
  next
    case False
    then have kin: "k \<in> set ids" using Cons.prems by simp
    have rest: "\<forall>j\<in>set ids. \<exists>w f. map_of (stop_loss_orders ?st') j = Some w \<and> dget w ''stop_loss_price'' PNone = PFloat f"
    proof
      fix j assume j: "j \<in> set ids"
      with notin have "j \<noteq> i" by auto
      from same [OF this] j Cons.prems(2) show "\<exists>w f. map_of (stop_loss_orders ?st') j = Some w \<and> dget w ''stop_loss_price'' PNone = PFloat f"
        by simp
    qed
    have kw: "map_of (stop_loss_orders ?st') k = Some w"
      using same [of k] False Cons.prems(4) by simp
    have q1: "count_list (printed ?st') (Triggered k) = count_list (printed st) (Triggered k)"
      using False by (simp add: execute_counts)
    have q2: "liquidations k (printed ?st') = liquidations k (printed st)"
      using False by (simp add: execute_counts)
    have q3: "count_list (requests st) req \<le> count_list (requests ?st') req"
      by (simp add: execute_counts)
    from Cons.IH [OF d rest kin kw] q1 q2 q3 show ?thesis
      unfolding step by (auto simp: le_less_trans)
  qed
qed

lemma lookup_counts:
  assumes "get_current_price B W t a st = (c, st1)"
  shows "count_list (printed st1) (Triggered k) = count_list (printed st) (Triggered k)"
    and "liquidations k (printed st1) = liquidations k (printed st)"
    and "count_list (requests st) req \<le> count_list (requests st1) req"
  using price_lookup_state [OF assms] by auto

lemma group_ids_simps [simp]:
  "group_ids [] = []" "group_ids ((t, ids) # g) = ids @ group_ids g"
  "group_ids (g1 @ g2) = group_ids g1 @ group_ids g2"
  by (simp_all add: group_ids_def)

lemma check_groups_frame:
  "(\<forall>j. j \<notin> set (group_ids g) \<longrightarrow>
       map_of (stop_loss_orders (check_groups B W a st g)) j = map_of (stop_loss_orders st) j
       \<and> count_list (printed (check_groups B W a st g)) (Triggered j) = count_list (printed st) (Triggered j)
       \<and> liquidations j (printed (check_groups B W a st g)) = liquidations j (printed st))
   \<and> count_list (requests st) req \<le> count_list (requests (check_groups B W a st g)) req"
proof (induction g arbitrary: st)
  case Nil
  show ?case by simp
next
  case (Cons p g)
  obtain t ids where p: "p = (t, ids)" by (cases p)
  obtain c st1 where l: "get_current_price B W t a st = (c, st1)"
    by (cases "get_current_price B W t a st")
  let ?st2 = "if c = PNone then st1 else check_orders B W t c st1 ids"
  have step: "check_groups B W a st (p # g) = check_groups B W a ?st2 g" by (simp add: p l)
  note f = price_lookup_state [OF l] and lc = lookup_counts [OF l]
  note co = check_orders_frame [of ids B W t c st1 req]
  have a: "\<And>j. j \<notin> set ids \<Longrightarrow> map_of (stop_loss_orders ?st2) j = map_of (stop_loss_orders st) j"
    using co f(2) by simp
  have b: "\<And>j. j \<notin> set ids \<Longrightarrow> count_list (printed ?st2) (Triggered j) = count_list (printed st) (Triggered j)"
    using co lc(1) by simp
  have c: "\<And>j. j \<notin> set ids \<Longrightarrow> liquidations j (printed ?st2) = liquidations j (printed st)"
    using co lc(2) by simp
  have d: "count_list (requests st) req \<le> count_list (requests ?st2) req"
    using co lc(3) [of req] by (auto intro: order_trans)
  from Cons.IH [of ?st2] a b c d show ?case unfolding step by (auto simp: p intro: order_trans)
qed

section \<open>The groups of a pass\<close>

lemma ids_add_to_group:
  "set (group_ids (add_to_group t i g)) = insert i (set (group_ids g))"
  "distinct (group_ids (add_to_group t i g)) \<longleftrightarrow> distinct (group_ids g) \<and> i \<notin> set (group_ids g)"
  by (induction t i g rule: add_to_group.induct) auto

lemma group_tokens_ids:
  assumes "group_tokens ws g0 = Inr g" and "distinct (map fst ws)"
    and "distinct (group_ids g0)" and "set (group_ids g0) \<inter> fst ` set ws = {}"
  shows "distinct (group_ids g) \<and> set (group_ids g) \<subseteq> set (group_ids g0) \<union> fst ` set ws"
  using assms
proof (induction ws arbitrary: g0)
  case Nil
  then show ?case by simp
next
  case (Cons p ws)
  obtain k w where p: "p = (k, w)" by (cases p)
  let ?t = "dget w ''instrument_token'' PNone"
  from Cons.prems have dk: "k \<notin> fst ` set ws" and dws: "distinct (map fst ws)"
    and kg: "k \<notin> set (group_ids g0)" and dj: "set (group_ids g0) \<inter> fst ` set ws = {}"
    by (auto simp: p)
  show ?case
  proof (cases "truthy ?t")
    case False
    with Cons.prems have "group_tokens ws g0 = Inr g" by (simp add: p Let_def)
    from Cons.IH [OF this dws Cons.prems(3) dj] show ?thesis by (auto simp: p)
  next
    case True
    with Cons.prems have g: "group_tokens ws (add_to_group ?t k g0) = Inr g"
      by (simp add: p Let_def split: sum.splits)
    have d: "distinct (group_ids (add_to_group ?t k g0))"
      using Cons.prems(3) kg by (simp add: ids_add_to_group)
    have j: "set (group_ids (add_to_group ?t k g0)) \<inter> fst ` set ws = {}"
      using dj dk by (simp add: ids_add_to_group)
    from Cons.IH [OF g dws d j] show ?thesis by (auto simp: p ids_add_to_group)
  qed
qed

lemma add_to_group_member:
  assumes "(t', ids) \<in> set (add_to_group t i g)" and "j \<in> set ids"
  shows "(j = i \<and> hash_key t' = hash_key t) \<or> (\<exists>ids0. (t', ids0) \<in> set g \<and> j \<in> set ids0)"
  using assms by (induction t i g rule: add_to_group.induct) (auto split: if_splits)

lemma group_tokens_member:
  assumes "group_tokens ws g0 = Inr g" and "(t, ids) \<in> set g" and "j \<in> set ids"
  shows "(\<exists>ids0. (t, ids0) \<in> set g0 \<and> j \<in> set ids0)
         \<or> (\<exists>w. (j, w) \<in> set ws \<and> hash_key (dget w ''instrument_token'' PNone) = hash_key t)"
  using assms(1)
proof (induction ws arbitrary: g0)
  case Nil
  with assms(2,3) show ?case by auto
next
  case (Cons p ws)
  obtain k w where p: "p = (k, w)" by (cases p)
  let ?t = "dget w ''instrument_token'' PNone"
  show ?case
  proof (cases "truthy ?t")
    case False
    with Cons.prems have "group_tokens ws g0 = Inr g" by (simp add: p Let_def)
    from Cons.IH [OF this] show ?thesis by (auto simp: p)
  next
    case True
    with Cons.prems have g: "group_tokens ws (add_to_group ?t k g0) = Inr g"
      by (simp add: p Let_def split: sum.splits)
    from Cons.IH [OF g] consider
      ids0 where "(t, ids0) \<in> set (add_to_group ?t k g0)" "j \<in> set ids0"
      | w' where "(j, w') \<in> set ws" "hash_key (dget w' ''instrument_token'' PNone) = hash_key t"
      by blast
    then show ?thesis
    proof cases
      case 1
      from add_to_group_member [OF 1] show ?thesis by (auto simp: p)
    next
      case 2
      then show ?thesis by (auto simp: p)
    qed
  qed
qed

lemma group_token_of_watch:
  assumes "group_tokens ws [] = Inr g" and "distinct (map fst ws)"
    and "(t, ids) \<in> set g" and "k \<in> set ids" and "map_of ws k = Some w"
  shows "hash_key (dget w ''instrument_token'' PNone) = hash_key t"
proof -
  from group_tokens_member [OF assms(1,3,4)] obtain w'
    where "(k, w') \<in> set ws" and h: "hash_key (dget w' ''instrument_token'' PNone) = hash_key t" by auto
  with assms(2) have "map_of ws k = Some w'" by simp
  with assms(5) h show ?thesis by simp
qed

section \<open>A pass from the lookup to the liquidation\<close>

lemma pass_evaluates:
  assumes keys: "distinct (map fst (stop_loss_orders st))"
    and cred: "truthy (pass_credential st)"
    and grp: "group_tokens (stop_loss_orders st) [] = Inr (g1 @ (t, ids) # g2)"
    and look: "get_current_price B W t (pass_credential st)
                 (check_groups B W (pass_credential st) (say (Checking (length (stop_loss_orders st))) st) g1)
               = (c, st1)"
    and num: "price_value c = Some x"
    and flt: "\<forall>i\<in>set ids. \<exists>w f. map_of (stop_loss_orders st) i = Some w \<and> dget w ''stop_loss_price'' PNone = PFloat f"
    and kin: "k \<in> set ids"
    and kw: "map_of (stop_loss_orders st) k = Some w"
    and stop: "dget w ''stop_loss_price'' PNone = PFloat (Fin P)"
  shows "count_list (printed (check_stop_losses B W st)) (Triggered k) =
           count_list (printed st) (Triggered k) + (if P \<noteq> 0 \<and> x \<le> P then 1 else 0)
       \<and> liquidations k (printed (check_stop_losses B W st)) =
           liquidations k (printed st) + (if P \<noteq> 0 \<and> x \<le> P then 1 else 0)
       \<and> (P \<noteq> 0 \<and> x \<le> P \<and> stop_loss_request B w = Inr req \<longrightarrow>
            count_list (requests st) req < count_list (requests (check_stop_losses B W st)) req)
       \<and> hash_key (dget w ''instrument_token'' PNone) = hash_key t"
proof -
  let ?a = "pass_credential st"
  let ?st0 = "say (Checking (length (stop_loss_orders st))) st"
  let ?sA = "check_groups B W ?a ?st0 g1"
  let ?sB = "check_orders B W t c st1 ids"
  have run: "check_stop_losses B W st = check_groups B W ?a ?sB g2"
  proof -
    from num have "c \<noteq> PNone" by auto
    then show ?thesis
      by (simp add: pass_open [OF cred] grp check_groups_append look)
  qed
  from group_tokens_ids [OF grp keys] have dis: "distinct (group_ids (g1 @ (t, ids) # g2))" by simp
  then have d_ids: "distinct ids"
    and out1: "\<And>j. j \<in> set ids \<Longrightarrow> j \<notin> set (group_ids g1)"
    and out2: "\<And>j. j \<in> set ids \<Longrightarrow> j \<notin> set (group_ids g2)"
    by auto
  note fA = check_groups_frame [of g1 B W ?a ?st0 req]
  note fl = price_lookup_state [OF look] and cl = lookup_counts [OF look]
  have s1: "\<And>j. j \<in> set ids \<Longrightarrow> map_of (stop_loss_orders st1) j = map_of (stop_loss_orders st) j"
    using fA out1 fl(2) by simp
  have flt1: "\<forall>i\<in>set ids. \<exists>w f. map_of (stop_loss_orders st1) i = Some w \<and> dget w ''stop_loss_price'' PNone = PFloat f"
    using flt s1 by simp
  have kw1: "map_of (stop_loss_orders st1) k = Some w" using kw s1 [OF kin] by simp
  have t1: "count_list (printed st1) (Triggered k) = count_list (printed st) (Triggered k)"
    using fA out1 [OF kin] cl(1) [of k] by simp
  have l1: "liquidations k (printed st1) = liquidations k (printed st)"
    using fA out1 [OF kin] cl(2) [of k] by simp
  have r1: "count_list (requests st) req \<le> count_list (requests st1) req"
    using fA cl(3) [of req] by (auto intro: order_trans)
  note ev = check_orders_evaluates [OF d_ids flt1 num kin kw1 stop, of B W t req]
  note fB = check_groups_frame [of g2 B W ?a ?sB req]
  from fB out2 [OF kin] have t2: "count_list (printed (check_groups B W ?a ?sB g2)) (Triggered k) =
        count_list (printed ?sB) (Triggered k)"
    and l2: "liquidations k (printed (check_groups B W ?a ?sB g2)) = liquidations k (printed ?sB)"
    and r2: "count_list (requests ?sB) req \<le> count_list (requests (check_groups B W ?a ?sB g2)) req"
    by blast+
  have tok: "hash_key (dget w ''instrument_token'' PNone) = hash_key t"
    by (rule group_token_of_watch [OF grp keys _ kin kw]) simp
  from ev t1 l1 r1 t2 l2 r2 tok show ?thesis
    unfolding run by (auto intro: le_less_trans less_le_trans)
qed

section \<open>A sheet with a token as number and as text, evaluated\<close>

lemma decimal_1001: "decimal ''1001'' = Some 1001"
  by (simp add: decimal_def digit_value_def)

lemma mixed_prepare:
  "\<exists>d. prepare_order digit_builtins abc_mapping (snd (mixed_rows ! 0)) = Inr (Some d)
        \<and> instrument_token d = PInt 1001 \<and> transaction_type d = ''BUY'' \<and> stop_loss_price d = PInt 95"
  "\<exists>d. prepare_order digit_builtins abc_mapping (snd (mixed_rows ! 1)) = Inr (Some d)
        \<and> instrument_token d = PStr ''1001'' \<and> transaction_type d = ''BUY'' \<and> stop_loss_price d = PInt 90"
  by (simp_all add: mixed_rows_def prepare_order_def resolve_token_def extract_details_def
        dget_def bind_def py_bool_def upper_defaults digit_builtins_def decimal_1001)

lemma numbering_ids:
  "net (numbering_world q) 0 (PostOrder p a) = Reply 200 (PDict [(''data'', PDict [(''order_id'', PStr ''ORD0'')])])"
  "net (numbering_world q) (Suc 0) (PostOrder p a) = Reply 200 (PDict [(''data'', PDict [(''order_id'', PStr ''ORD1'')])])"
  "clock (numbering_world q) n = 1700000000"
  "now_iso (numbering_world q) n = ''2023-11-14T22:13:20''"
  by (simp_all add: numbering_world_def str_int_def digit_char_def)

lemma mixed_store:
  "map (\<lambda>kw. (fst kw, dget (snd kw) ''instrument_token'' PNone, dget (snd kw) ''access_token'' PNone))
     (stop_loss_orders mixed_ingested) =
     [(PStr ''ORD0'', PInt 1001, PStr ''tok''), (PStr ''ORD1'', PStr ''1001'', PStr ''tok'')]"
  "lookups (requests mixed_ingested) = []"
  by (simp_all add: mixed_ingested_def process_excel_file_def mixed_rows_def process_row_def
        prepare_order_def resolve_token_def extract_details_def dget_def bind_def py_bool_def
        upper_defaults digit_builtins_def decimal_1001 Let_def numbering_ids store_order_def
        order_id_of_def empty_state_def say_def order_record_def watch_record_def)

section \<open>Example passes, evaluated\<close>

lemma mixed_lookups:
  "pass_lookups mixed_ingested = [(PInt 1001, PStr ''tok''), (PStr ''1001'', PStr ''tok'')]"
  by (simp add: pass_lookups_def pass_credential_def
        mixed_ingested_def process_excel_file_def mixed_rows_def process_row_def
        prepare_order_def resolve_token_def extract_details_def dget_def bind_def py_bool_def
        upper_defaults digit_builtins_def decimal_1001 Let_def numbering_ids store_order_def
        order_id_of_def empty_state_def say_def order_record_def watch_record_def)

lemma mixed_identifiers:
  "py_int digit_builtins (PInt 1001) = Inr 1001" "py_int digit_builtins (PStr ''1001'') = Inr 1001"
  by (simp_all add: digit_builtins_def decimal_1001)

lemma shared_groups:
  "group_tokens (stop_loss_orders shared_state) [] =
     Inr ([(PInt 1001, [PStr ''A1'', PStr ''C3''])] @ (PInt 2002, [PStr ''B2'']) # [])"
  by (simp add: shared_state_def watch_fields)

lemma outage_quotes:
  "get_current_price plain_builtins outage_world (PInt 1001) a st =
     (PNone, say PriceError (st\<lparr>requests := requests st @ [GetPrice (PInt 1001) a]\<rparr>))"
  "get_current_price plain_builtins outage_world (PInt 2002) a st =
     (PInt 40, st\<lparr>requests := requests st @ [GetPrice (PInt 2002) a]\<rparr>)"
  by (simp_all add: get_current_price_def outage_world_def Let_def extract_price_def bind_def
        str_int_def digit_char_def)

section \<open>Replies without an order identifier\<close>

lemma process_row_unreadable:
  assumes "prepare_order B m (snd ir) = Inr (Some d)"
    and "net W (length (requests st)) (PostOrder (payload d) (PStr tok)) = Reply code result"
    and "bind (order_id_of result (manual_id (clock W (Suc (length (requests st)))) (fst ir))) hash_key = Inl e"
  shows "process_row B W m tok st ir =
           say (RowError (fst ir)) (st\<lparr>requests := requests st @ [PostOrder (payload d) (PStr tok)]\<rparr>)"
proof -
  let ?st1 = "st\<lparr>requests := requests st @ [PostOrder (payload d) (PStr tok)]\<rparr>"
  have l: "length (requests ?st1) = Suc (length (requests st))" by simp
  have "store_order B W tok (fst ir) d result ?st1 = say (RowError (fst ir)) ?st1"
    by (rule store_order_fail [where e = e]) (simp only: l assms(3))
  then show ?thesis by (simp add: process_row_answered [OF assms(1,2)])
qed

lemma abc_null_data:
  "process_row plain_builtins null_data_world abc_mapping ''tok'' empty_state (0, abc_row) =
     \<lparr>active_orders = [], stop_loss_orders = [], requests = [abc_buy_request], printed = [RowError 0]\<rparr>"
  by (simp add: process_row_def abc_prepare Let_def null_data_world_def store_order_def order_id_of_def
        bind_def empty_state_def say_def abc_buy_request_def)

section \<open>A batch of five rows, evaluated\<close>

lemma upper_more:
  "upper ''sell'' = ''SELL''" "upper ''buy'' = ''BUY''"
  by (simp_all add: upper_def upper_char_def)

lemma batch_columns:
  "list_all (\<lambda>ir. map fst (snd ir) =
      [''symbol'', ''instrument_token'', ''transaction_type'', ''quantity'', ''price'']) batch_rows"
  by (simp add: batch_rows_def)

lemma batch_prepare:
  "prepare_order plain_builtins abc_mapping (snd (batch_rows ! 2)) = Inl ValueError"
  "prepare_order plain_builtins abc_mapping (snd (batch_rows ! 3)) =
     Inr (Some \<lparr> symbol = PStr ''abc'', instrument_token = PInt 1001, transaction_type = ''BUY'',
                 quantity = 1, price = Fin 0, order_type = ''MARKET'', product = ''I'',
                 stop_loss_price = PNone,
                 payload =
                   [(''quantity'', PInt 1), (''product'', PStr ''I''),
                    (''validity'', PStr ''DAY''), (''price'', PFloat (Fin 0)),
                    (''tag'', PStr ''excel-order''), (''instrument_token'', PInt 1001),
                    (''order_type'', PStr ''MARKET''), (''transaction_type'', PStr ''BUY''),
                    (''disclosed_quantity'', PInt 0), (''trigger_price'', PFloat (Fin 0)),
                    (''is_amo'', PBool False)] \<rparr>)"
  by (simp_all add: batch_rows_def prepare_order_def resolve_token_def extract_details_def
        abc_mapping_def dget_def bind_def py_bool_def upper_defaults upper_more plain_builtins_def)

lemma batch_net:
  "net batch_world 3 (PostOrder p a) = NoResponse"
  "clock batch_world n = 1700000000"
  "now_iso batch_world n = ''2023-11-14T22:13:20''"
  by (simp_all add: batch_world_def)

lemma batch_ids:
  "net batch_world 0 (PostOrder p a) = Reply 200 (PDict [(''data'', PDict [(''order_id'', PStr ''ORD0'')])])"
  "net batch_world 1 (PostOrder p a) = Reply 200 (PDict [(''data'', PDict [(''order_id'', PStr ''ORD1'')])])"
  "net batch_world 2 (PostOrder p a) = Reply 200 (PDict [(''data'', PDict [(''order_id'', PStr ''ORD2'')])])"
  by (simp_all add: batch_world_def str_int_def digit_char_def)

lemma batch_net_suc:
  "net batch_world (Suc 0) (PostOrder p a) = Reply 200 (PDict [(''data'', PDict [(''order_id'', PStr ''ORD1'')])])"
  "net batch_world (Suc (Suc 0)) (PostOrder p a) = Reply 200 (PDict [(''data'', PDict [(''order_id'', PStr ''ORD2'')])])"
  "net batch_world (Suc (Suc (Suc 0))) (PostOrder p a) = NoResponse"
  using batch_ids(2,3) [of p a] batch_net(1) [of p a] by (simp_all add: numeral_2_eq_2 numeral_3_eq_3)

lemmas batch_eval = batch_net_suc
  batch_rows_def process_row_def prepare_order_def resolve_token_def extract_details_def
  abc_mapping_def dget_def bind_def py_bool_def upper_defaults upper_more
  plain_builtins_def Let_def store_order_def order_id_of_def batch_net batch_ids
  empty_state_def say_def order_record_def watch_record_def

lemma batch_prefix:
  "map fst (active_orders (foldl (process_row plain_builtins batch_world abc_mapping ''tok'') empty_state
      (take 3 batch_rows))) = [PStr ''ORD0'', PStr ''ORD1'']"
  "length (requests (foldl (process_row plain_builtins batch_world abc_mapping ''tok'') empty_state
      (take 3 batch_rows))) = 2"
  "printed (foldl (process_row plain_builtins batch_world abc_mapping ''tok'') empty_state
      (take 3 batch_rows)) = [OrderPlaced 0, OrderPlaced 1, RowError 2]"
  by (simp_all add: batch_eval)

lemma batch_result:
  "active_orders (process_excel_file plain_builtins batch_world abc_mapping ''tok''
      (Some batch_rows) empty_state) =
     [(PStr ''ORD0'',
       [(''symbol'', PStr ''abc''), (''instrument_token'', PInt 1001),
        (''transaction_type'', PStr ''BUY''), (''quantity'', PInt 10),
        (''price'', PFloat (Fin 100)), (''order_type'', PStr ''MARKET''),
        (''product'', PStr ''I''), (''time'', PStr ''2023-11-14T22:13:20''),
        (''status'', PStr ''placed''),
        (''response'', PDict [(''data'', PDict [(''order_id'', PStr ''ORD0'')])]),
        (''access_token'', PStr ''tok'')]),
      (PStr ''ORD1'',
       [(''symbol'', PStr ''xyz''), (''instrument_token'', PInt 2002),
        (''transaction_type'', PStr ''SELL''), (''quantity'', PInt 5),
        (''price'', PFloat (Fin 0)), (''order_type'', PStr ''MARKET''),
        (''product'', PStr ''I''), (''time'', PStr ''2023-11-14T22:13:20''),
        (''status'', PStr ''placed''),
        (''response'', PDict [(''data'', PDict [(''order_id'', PStr ''ORD1'')])]),
        (''access_token'', PStr ''tok'')]),
      (PStr ''ORD2'', fourth_record)]"
  "printed (process_excel_file plain_builtins batch_world abc_mapping ''tok''
      (Some batch_rows) empty_state) = [OrderPlaced 0, OrderPlaced 1, RowError 2, OrderPlaced 3, RowError 4]"
  "length (requests (process_excel_file plain_builtins batch_world abc_mapping ''tok''
      (Some batch_rows) empty_state)) = 4"
  by (simp_all add: process_excel_file_def batch_eval fourth_record_def)

section \<open>Execution metadata (C2)\<close>

text \<open>
  C2. When a liquidation succeeds the monitor should mark the originating order record,
  the entry of \<^verbatim>\<open>active_orders\<close> under the order identifier, with the execution price,
  the execution time and the broker response, and remove the watch. In the end-to-end
  scenario the pass that observes 94 places the sell order, the broker accepts it and
  the watch is removed, but the order record is exactly what the ingestion stored: it
  has none of the four execution fields. The assignments of lines 152 to 155 went to
  the watch dictionary, which line 161 deletes.
\<close>

theorem executed_order_record_unmarked:
  "Executed (PStr ''A1'') \<in> set (printed abc_liquidated)
   \<and> stop_loss_orders abc_liquidated = []
   \<and> active_orders abc_liquidated = active_orders abc_ingested
   \<and> map_of (active_orders abc_liquidated) (PStr ''A1'') = Some abc_record
   \<and> map_of abc_record ''stop_loss_executed'' = None
   \<and> map_of abc_record ''execution_price'' = None
   \<and> map_of abc_record ''execution_time'' = None
   \<and> map_of abc_record ''execution_response'' = None"
proof -
  have "Executed (PStr ''A1'') \<in> set (printed abc_liquidated)"
    and "stop_loss_orders abc_liquidated = []"
    and "active_orders abc_liquidated = active_orders abc_ingested"
    by (simp_all add: abc_liquidated_def abc_pass_94)
  moreover have "map_of (active_orders abc_liquidated) (PStr ''A1'') = Some abc_record"
    by (simp add: abc_liquidated_def abc_pass_94) (simp add: abc_ingested_eq)
  moreover have "map_of abc_record ''stop_loss_executed'' = None"
    and "map_of abc_record ''execution_price'' = None"
    and "map_of abc_record ''execution_time'' = None"
    and "map_of abc_record ''execution_response'' = None"
    by (simp_all add: abc_record_def)
  ultimately show ?thesis by simp
qed

section \<open>Stop-loss price 0 (C10)\<close>

text \<open>
  C10. A watch whose stop-loss price is 0 is never triggered, whatever the prices the
  lookups return and however many passes run: after any number of passes no line 99
  has been printed for it and it is still in the store, unchanged.
\<close>

theorem zero_stop_loss_never_triggers:
  assumes "map_of (stop_loss_orders st) k = Some w"
    and "dget w ''stop_loss_price'' PNone = PFloat (Fin 0)"
    and "Triggered k \<notin> set (printed st)"
  shows "Triggered k \<notin> set (printed ((check_stop_losses B W ^^ n) st))
         \<and> map_of (stop_loss_orders ((check_stop_losses B W ^^ n) st)) k = Some w"
  using passes_keep [OF assms(1) zero_not_triggered [OF assms(2)], where B = B and W = W and n = n] assms(3)
  by blast

theorem zero_stop_loss_never_triggers_witness:
  "map_of (stop_loss_orders zero_state) (PStr ''A1'') = Some zero_watch
   \<and> dget zero_watch ''stop_loss_price'' PNone = PFloat (Fin 0)
   \<and> Triggered (PStr ''A1'') \<notin> set (printed zero_state)
   \<and> Triggered (PStr ''A1'') \<notin>
        set (printed ((check_stop_losses plain_builtins (accepting_world (PInt (- 5))) ^^ 3) zero_state))
   \<and> map_of (stop_loss_orders ((check_stop_losses plain_builtins (accepting_world (PInt (- 5))) ^^ 3) zero_state))
        (PStr ''A1'') = Some zero_watch"
proof -
  have s: "map_of (stop_loss_orders zero_state) (PStr ''A1'') = Some zero_watch"
    by (simp add: zero_state_def)
  have z: "dget zero_watch ''stop_loss_price'' PNone = PFloat (Fin 0)"
    by (simp add: zero_watch_def dget_def)
  have p: "Triggered (PStr ''A1'') \<notin> set (printed zero_state)"
    by (simp add: zero_state_def)
  show ?thesis
    using zero_stop_loss_never_triggers
        [OF s z p, where B = plain_builtins and W = "accepting_world (PInt (- 5))" and n = 3] s z p
    by blast
qed

section \<open>At-most-once liquidation (C1)\<close>

text \<open>
  C1, as stated, fails on the code. In the scenario the pass observes 94 and posts the
  liquidating order; the broker rejects it with status 400 and an error payload. The
  watch is removed all the same: \<^verbatim>\<open>execute_stop_loss\<close> never looks at the status or at
  the body of the response, and deletes the watch whenever the call returns.
\<close>

theorem rejected_liquidation_removes_watch:
  "map_of (stop_loss_orders abc_ingested) (PStr ''A1'') = Some abc_watch
   \<and> stop_loss_request plain_builtins abc_watch = Inr abc_sell_request
   \<and> net (rejecting_world (PInt 94)) (Suc (length (requests abc_ingested))) abc_sell_request =
       Reply 400 (PDict [(''status'', PStr ''error''),
                         (''errors'', PList [PDict [(''message'', PStr ''Insufficient funds'')]])])
   \<and> stop_loss_orders (check_stop_losses plain_builtins (rejecting_world (PInt 94)) abc_ingested) = []"
  by (simp add: abc_pass_rejected abc_sell_request rejecting_reply) (simp add: abc_ingested_eq)

text \<open>
  C1, amended. A liquidation attempt removes the watch exactly when the placement call
  returns a response with a JSON body, whatever its status and content, and line 157 is
  printed exactly then; when the call raises or the body is not JSON the watch stays for
  the next pass. Over any number of passes the watch is gone exactly when line 157 has
  been printed for it, and that happens at most once.
\<close>

theorem liquidation_retires_once:
  assumes "map_of (stop_loss_orders st) k = Some w" and "Executed k \<notin> set (printed st)"
  shows "(k \<notin> fst ` set (stop_loss_orders (execute_stop_loss B W k w c st)) \<longleftrightarrow>
            (\<exists>req. stop_loss_request B w = Inr req \<and> is_reply (net W (length (requests st)) req)))
       \<and> (Executed k \<in> set (printed (execute_stop_loss B W k w c st)) \<longleftrightarrow>
            (\<exists>req. stop_loss_request B w = Inr req \<and> is_reply (net W (length (requests st)) req)))
       \<and> (k \<notin> fst ` set (stop_loss_orders ((check_stop_losses B W ^^ n) st)) \<longleftrightarrow>
            Executed k \<in> set (printed ((check_stop_losses B W ^^ n) st)))
       \<and> count_list (printed ((check_stop_losses B W ^^ n) st)) (Executed k) \<le> 1"
proof -
  from assms(1) have dom: "k \<in> fst ` set (stop_loss_orders st)"
    by (metis domI dom_map_of_conv_image_fst)
  have one: "k \<notin> fst ` set (stop_loss_orders (execute_stop_loss B W k w c st)) \<longleftrightarrow>
            (\<exists>req. stop_loss_request B w = Inr req \<and> is_reply (net W (length (requests st)) req))"
    using dom by (auto simp: execute_store AList.delete_notin_dom split: sum.splits)
  have two: "Executed k \<in> set (printed (execute_stop_loss B W k w c st)) \<longleftrightarrow>
            (\<exists>req. stop_loss_request B w = Inr req \<and> is_reply (net W (length (requests st)) req))"
    using assms(2) by (auto simp: execute_unfold split: sum.splits reply.splits)
  have "retired_once k st" using dom assms(2) by (simp add: retired_once_def)
  then have r: "retired_once k ((check_stop_losses B W ^^ n) st)" by (rule retired_passes)
  let ?st = "(check_stop_losses B W ^^ n) st"
  have three: "k \<notin> fst ` set (stop_loss_orders ?st) \<longleftrightarrow> Executed k \<in> set (printed ?st)"
  proof (cases "k \<in> fst ` set (stop_loss_orders ?st)")
    case True
    with r show ?thesis by (simp add: retired_once_def)
  next
    case False
    with r have "count_list (printed ?st) (Executed k) = 1" by (simp add: retired_once_def)
    then have "Executed k \<in> set (printed ?st)" by (metis count_notin zero_neq_one)
    with False show ?thesis by simp
  qed
  have four: "count_list (printed ?st) (Executed k) \<le> 1"
  proof (cases "k \<in> fst ` set (stop_loss_orders ?st)")
    case True
    with r have "Executed k \<notin> set (printed ?st)" by (simp add: retired_once_def)
    then show ?thesis by simp
  next
    case False
    with r show ?thesis by (simp add: retired_once_def)
  qed
  from one two three four show ?thesis by blast
qed

theorem liquidation_retires_once_witness:
  "map_of (stop_loss_orders abc_ingested) (PStr ''A1'') = Some abc_watch
   \<and> Executed (PStr ''A1'') \<notin> set (printed abc_ingested)
   \<and> PStr ''A1'' \<notin> fst ` set (stop_loss_orders
        ((check_stop_losses plain_builtins (accepting_world (PInt 94)) ^^ 2) abc_ingested))
   \<and> Executed (PStr ''A1'') \<in> set (printed
        ((check_stop_losses plain_builtins (accepting_world (PInt 94)) ^^ 2) abc_ingested))
   \<and> count_list (printed ((check_stop_losses plain_builtins (accepting_world (PInt 94)) ^^ 2) abc_ingested))
        (Executed (PStr ''A1'')) \<le> 1"
proof -
  have s: "map_of (stop_loss_orders abc_ingested) (PStr ''A1'') = Some abc_watch"
    by (simp add: abc_ingested_eq)
  have p: "Executed (PStr ''A1'') \<notin> set (printed abc_ingested)"
    by (simp add: abc_ingested_eq)
  have two: "(check_stop_losses plain_builtins (accepting_world (PInt 94)) ^^ 2) abc_ingested =
               check_stop_losses plain_builtins (accepting_world (PInt 94)) abc_ingested"
    by (simp add: numeral_2_eq_2 abc_pass_94 pass_empty_store)
  have gone: "PStr ''A1'' \<notin> fst ` set (stop_loss_orders
        ((check_stop_losses plain_builtins (accepting_world (PInt 94)) ^^ 2) abc_ingested))"
    unfolding two by (simp add: abc_pass_94)
  show ?thesis
    using liquidation_retires_once [OF s p, where B = plain_builtins
        and W = "accepting_world (PInt 94)" and n = 2 and c = "PInt 94"] s p gone
    by blast
qed

section \<open>The credential of the lookups (C5)\<close>

text \<open>
  C5, as stated, fails on the code. With two watches on two instruments that carry two
  credentials, the lookup for instrument 2002 is made with the credential \<^verbatim>\<open>tok\<close> of the
  first watch, whose instrument is 1001; the only watch of instrument 2002 carries
  \<^verbatim>\<open>other\<close>.
\<close>

theorem lookup_with_foreign_credential:
  "stop_loss_orders two_credentials_state = [(PStr ''A1'', abc_watch), (PStr ''B2'', other_watch)]
   \<and> dget abc_watch ''instrument_token'' PNone = PInt 1001
   \<and> dget abc_watch ''access_token'' PNone = PStr ''tok''
   \<and> dget other_watch ''instrument_token'' PNone = PInt 2002
   \<and> dget other_watch ''access_token'' PNone = PStr ''other''
   \<and> lookups (requests (check_stop_losses plain_builtins (accepting_world (PInt 96)) two_credentials_state)) =
        [(PInt 1001, PStr ''tok''), (PInt 2002, PStr ''tok'')]"
  by (simp add: lookups_pass two_credentials_lookups watch_fields) (simp add: two_credentials_state_def)

text \<open>
  C5, amended. The lookups of a pass are those of \<open>pass_lookups\<close>, and each of them is
  made with the credential of the pass, the one carried by the first watch in the store
  (line 67: all watches are assumed to use the same token). When the first watch has no
  credential the pass ends at line 73: it reports it and does nothing else, so no watch
  is evaluated and none is removed, whatever credentials the other watches carry.
\<close>

theorem pass_uses_first_credential:
  "lookups (requests (check_stop_losses B W st)) = lookups (requests st) @ pass_lookups st
   \<and> snd ` set (pass_lookups st) \<subseteq> {pass_credential st}
   \<and> (stop_loss_orders st \<noteq> [] \<and> \<not> truthy (pass_credential st) \<longrightarrow>
        check_stop_losses B W st = say NoAccessToken (say (Checking (length (stop_loss_orders st))) st))"
  using lookups_pass [of B W st] pass_lookups_credential [of st] pass_closed [of st B W] by blast

theorem pass_uses_first_credential_witness:
  "stop_loss_orders anonymous_state \<noteq> []
   \<and> \<not> truthy (pass_credential anonymous_state)
   \<and> check_stop_losses plain_builtins (accepting_world (PInt 94)) anonymous_state =
        say NoAccessToken (say (Checking 1) anonymous_state)
   \<and> lookups (requests (check_stop_losses plain_builtins (accepting_world (PInt 94)) anonymous_state)) = []"
proof -
  have n: "stop_loss_orders anonymous_state \<noteq> []" and l: "length (stop_loss_orders anonymous_state) = 1"
    and r: "lookups (requests anonymous_state) = []"
    by (simp_all add: anonymous_state_def)
  have c: "\<not> truthy (pass_credential anonymous_state)" by (simp add: anonymous_credential)
  have p: "pass_lookups anonymous_state = []" using c by (simp add: pass_lookups_def)
  show ?thesis
    using pass_uses_first_credential [of plain_builtins "accepting_world (PInt 94)" anonymous_state] n c l r p
    by simp
qed

section \<open>Loading the registry (C9)\<close>

text \<open>
  C9, as stated, fails on the code. The second entry of the dataset has \<^verbatim>\<open>null\<close> as
  symbol; \<^verbatim>\<open>item['symbol'].strip()\<close> raises on it, the \<^verbatim>\<open>except\<close> of line 46 is outside the
  loop, and the third entry, which has a symbol and a numeric identifier, is never
  inserted. The report is the error, not a count.
\<close>

theorem malformed_entry_ends_load:
  "parsed_entry plain_builtins (broken_dataset ! 2) = Some (''CC'', 3)
   \<and> load_instrument_mapping plain_builtins [] (Parsed broken_dataset) = ([(''AA'', 1)], LoadError)
   \<and> map_of (fst (load_instrument_mapping plain_builtins [] (Parsed broken_dataset))) ''CC'' = None"
  by (simp add: broken_load) (simp add: broken_dataset_def broken_entries)

text \<open>
  C9, amended. When no entry is malformed, the load stores, in order, the entry of each
  item that has both fields (the symbol stripped and in upper case, the token through
  \<^verbatim>\<open>int()\<close>), passes over the items that lack a field, and prints the number of mappings
  then in the table. At the first malformed item the load ends with an error message:
  the table holds the entries of the items before it and none of the later ones. In
  the table a symbol maps to the token of the last entry stored for it.
\<close>

theorem load_until_malformed:
  "((\<forall>item\<in>set items. \<not> malformed B item) \<longrightarrow>
      load_instrument_mapping B m (Parsed items) =
        (store_entries m (entries_of B items), Loaded (length (store_entries m (entries_of B items)))))
   \<and> ((\<forall>item\<in>set pre. \<not> malformed B item) \<and> malformed B bad \<longrightarrow>
      load_instrument_mapping B m (Parsed (pre @ bad # post)) = (store_entries m (entries_of B pre), LoadError))
   \<and> map_of (store_entries m es) k = (case map_of (rev es) k of None \<Rightarrow> map_of m k | Some t \<Rightarrow> Some t)"
proof -
  have one: "load_instrument_mapping B m (Parsed items) =
        (store_entries m (entries_of B items), Loaded (length (store_entries m (entries_of B items))))"
    if "\<forall>item\<in>set items. \<not> malformed B item"
    using load_items_clean [OF that, of m] by (simp add: load_instrument_mapping_def)
  have two: "load_instrument_mapping B m (Parsed (pre @ bad # post)) = (store_entries m (entries_of B pre), LoadError)"
    if "\<forall>item\<in>set pre. \<not> malformed B item" and "malformed B bad"
  proof -
    from load_items_stop [OF that, of m post] obtain e
      where "load_items B m (pre @ bad # post) = (store_entries m (entries_of B pre), Some e)" by blast
    then show ?thesis by (simp add: load_instrument_mapping_def)
  qed
  from one two last_write_wins [of m es k] show ?thesis by blast
qed

theorem load_until_malformed_witness:
  "load_instrument_mapping plain_builtins [] (Parsed clean_dataset) = ([(''ABC'', 7), (''Q'', 9)], Loaded 2)
   \<and> malformed plain_builtins [(''symbol'', PNone), (''instrument_token'', PInt 2)]
   \<and> load_instrument_mapping plain_builtins []
        (Parsed ([[(''symbol'', PStr ''aa''), (''instrument_token'', PInt 1)]]
                 @ [(''symbol'', PNone), (''instrument_token'', PInt 2)]
                 # [[(''symbol'', PStr ''cc''), (''instrument_token'', PInt 3)]])) = ([(''AA'', 1)], LoadError)
   \<and> map_of (store_entries [] [(''ABC'', 5), (''ABC'', 7), (''Q'', 9)]) ''ABC'' = Some 7"
proof -
  note t = load_until_malformed [where B = plain_builtins and m = "[]" and items = clean_dataset
      and pre = "[[(''symbol'', PStr ''aa''), (''instrument_token'', PInt 1)]]"
      and bad = "[(''symbol'', PNone), (''instrument_token'', PInt 2)]"
      and post = "[[(''symbol'', PStr ''cc''), (''instrument_token'', PInt 3)]]"
      and es = "[(''ABC'', 5), (''ABC'', 7), (''Q'', 9)]" and k = "''ABC''"]
  have pre: "\<forall>item\<in>set [[(''symbol'', PStr ''aa''), (''instrument_token'', PInt 1)]]. \<not> malformed plain_builtins item"
    by (simp add: malformed_def broken_entries)
  have s1: "store_entries [] (entries_of plain_builtins clean_dataset) = [(''ABC'', 7), (''Q'', 9)]"
    by (simp add: clean_entries store_entries_def)
  have s2: "store_entries [] (entries_of plain_builtins [[(''symbol'', PStr ''aa''), (''instrument_token'', PInt 1)]])
              = [(''AA'', 1)]"
    by (simp add: entries_of_def broken_entries store_entries_def)
  from t clean_not_malformed have a: "load_instrument_mapping plain_builtins [] (Parsed clean_dataset) =
      ([(''ABC'', 7), (''Q'', 9)], Loaded 2)" by (simp add: s1)
  from t pre broken_entries(2) have b: "load_instrument_mapping plain_builtins []
        (Parsed ([[(''symbol'', PStr ''aa''), (''instrument_token'', PInt 1)]]
                 @ [(''symbol'', PNone), (''instrument_token'', PInt 2)]
                 # [[(''symbol'', PStr ''cc''), (''instrument_token'', PInt 3)]])) = ([(''AA'', 1)], LoadError)"
    by (simp add: s2)
  from t have c: "map_of (store_entries [] [(''ABC'', 5), (''ABC'', 7), (''Q'', 9)]) ''ABC'' = Some 7"
    by simp
  from a b c broken_entries(2) show ?thesis by blast
qed

section \<open>Resolution by symbol (C8)\<close>

text \<open>
  C8 holds for a row that has no \<^verbatim>\<open>instrument_token\<close> column (\<open>resolve_token_by_symbol\<close>,
  \<open>unresolved_row_skipped\<close>, \<open>resolve_normalizes\<close>), and the code misses it for a row whose
  \<^verbatim>\<open>instrument_token\<close> cell is empty. The cell reads as \<^verbatim>\<open>nan\<close>, which is true as a
  condition, so line 222 does not call \<^verbatim>\<open>get_instrument_token\<close> although the registry
  knows the symbol of the row; the token stays \<^verbatim>\<open>nan\<close>, \<^verbatim>\<open>int(instrument_token)\<close> raises at
  line 246, and the row ends in the \<^verbatim>\<open>except\<close> of line 290 without a request and without
  an order record.
\<close>

theorem blank_identifier_not_resolved:
  "dget blank_token_row ''symbol'' (PStr []) = PStr ''abc''
   \<and> get_instrument_token abc_mapping (PStr ''abc'') = Inr (PInt 1001)
   \<and> dget blank_token_row ''instrument_token'' PNone = PFloat NaN
   \<and> truthy (PFloat NaN)
   \<and> resolve_token abc_mapping blank_token_row = Inr (Some (PFloat NaN))
   \<and> prepare_order plain_builtins abc_mapping blank_token_row = Inl ValueError
   \<and> process_excel_file plain_builtins (accepting_world (PInt 94)) abc_mapping ''tok''
        (Some [(0, blank_token_row)]) empty_state = say (RowError 0) empty_state"
proof -
  have "dget blank_token_row ''symbol'' (PStr []) = PStr ''abc''"
    and "dget blank_token_row ''instrument_token'' PNone = PFloat NaN"
    by (simp_all add: blank_token_row_def dget_def)
  moreover have "get_instrument_token abc_mapping (PStr ''abc'') = Inr (PInt 1001)"
    by (simp add: upper_abc abc_mapping_def)
  moreover have "process_excel_file plain_builtins (accepting_world (PInt 94)) abc_mapping ''tok''
        (Some [(0, blank_token_row)]) empty_state = say (RowError 0) empty_state"
    by (simp add: process_excel_file_def process_row_unprepared(1) [where e = ValueError] blank_token_prepare)
  ultimately show ?thesis using blank_token_prepare by simp
qed

section \<open>Trigger boundary (C3)\<close>

text \<open>
  C3, as stated, fails on the code. A watch with the stop-loss price 0 is evaluated by a
  pass whose lookup returned the price 0, so the observed price is at or below the
  threshold, and line 98 does not trigger it: \<^verbatim>\<open>stop_loss_price and ...\<close> is false for 0.0.
\<close>

theorem zero_threshold_not_triggered:
  "map_of (stop_loss_orders zero_state) (PStr ''A1'') = Some zero_watch
   \<and> dget zero_watch ''stop_loss_price'' PNone = PFloat (Fin 0)
   \<and> fst (get_current_price plain_builtins (accepting_world (PInt 0)) (PInt 1001) (PStr ''tok'')
            (say (Checking 1) zero_state)) = PInt 0
   \<and> price_value (PInt 0) = Some 0
   \<and> (0::real) \<le> 0
   \<and> Triggered (PStr ''A1'') \<notin> set (printed (check_stop_losses plain_builtins (accepting_world (PInt 0)) zero_state))"
proof -
  have s: "map_of (stop_loss_orders zero_state) (PStr ''A1'') = Some zero_watch"
    by (simp add: zero_state_def)
  have z: "dget zero_watch ''stop_loss_price'' PNone = PFloat (Fin 0)"
    by (simp add: zero_watch_def dget_def)
  have "Triggered (PStr ''A1'') \<notin> set (printed zero_state)"
    by (simp add: zero_state_def)
  then have "Triggered (PStr ''A1'') \<notin> set (printed (check_stop_losses plain_builtins (accepting_world (PInt 0)) zero_state))"
    using pass_keeps [OF s zero_not_triggered [OF z]] by blast
  then show ?thesis using s z by (simp add: abc_price)
qed

text \<open>
  C3, amended. Take a pass over a store whose first watch carries a credential, and in
  it the group of a token \<open>t\<close>: the pass reaches the group after the groups before it,
  looks the price of \<open>t\<close> up and gets the number \<open>x\<close>. The watches of the group have a
  float as stop-loss price, as the ingestion stores them. Then for a watch of the
  group with the finite stop-loss price \<open>P\<close>, whose token is \<open>t\<close> as a key, the pass
  attempts the liquidation exactly when \<open>P\<close> is not 0 and \<open>x \<le> P\<close>, \<open>x = P\<close> included: it
  prints line 99 once and calls \<^verbatim>\<open>execute_stop_loss\<close> once, which posts the sell order of
  the watch if it can build it. When \<open>x > P\<close>, or \<open>P\<close> is 0, it does neither. What the log
  held before the pass does not matter.
\<close>

theorem trigger_boundary:
  assumes "distinct (map fst (stop_loss_orders st))"
    and "truthy (pass_credential st)"
    and "group_tokens (stop_loss_orders st) [] = Inr (g1 @ (t, ids) # g2)"
    and "get_current_price B W t (pass_credential st)
           (check_groups B W (pass_credential st) (say (Checking (length (stop_loss_orders st))) st) g1)
         = (c, st1)"
    and "price_value c = Some x"
    and "\<forall>i\<in>set ids. \<exists>w f. map_of (stop_loss_orders st) i = Some w \<and> dget w ''stop_loss_price'' PNone = PFloat f"
    and "k \<in> set ids"
    and "map_of (stop_loss_orders st) k = Some w"
    and "dget w ''stop_loss_price'' PNone = PFloat (Fin P)"
  shows "count_list (printed (check_stop_losses B W st)) (Triggered k) =
           count_list (printed st) (Triggered k) + (if P \<noteq> 0 \<and> x \<le> P then 1 else 0)
       \<and> liquidations k (printed (check_stop_losses B W st)) =
           liquidations k (printed st) + (if P \<noteq> 0 \<and> x \<le> P then 1 else 0)
       \<and> (P \<noteq> 0 \<and> x \<le> P \<and> stop_loss_request B w = Inr req \<longrightarrow>
            count_list (requests st) req < count_list (requests (check_stop_losses B W st)) req)
       \<and> hash_key (dget w ''instrument_token'' PNone) = hash_key t"
  using assms by (rule pass_evaluates)

theorem trigger_boundary_witness:
  "distinct (map fst (stop_loss_orders abc_ingested))
   \<and> truthy (pass_credential abc_ingested)
   \<and> group_tokens (stop_loss_orders abc_ingested) [] = Inr ([] @ (PInt 1001, [PStr ''A1'']) # [])
   \<and> price_value (PInt 95) = Some 95
   \<and> price_value (PInt 96) = Some 96
   \<and> map_of (stop_loss_orders abc_ingested) (PStr ''A1'') = Some abc_watch
   \<and> dget abc_watch ''stop_loss_price'' PNone = PFloat (Fin 95)
   \<and> stop_loss_request plain_builtins abc_watch = Inr abc_sell_request
   \<and> liquidations (PStr ''A1'') (printed abc_ingested) = 0
   \<and> count_list (requests abc_ingested) abc_sell_request = 0
   \<and> liquidations (PStr ''A1'')
        (printed (check_stop_losses plain_builtins (accepting_world (PInt 95)) abc_ingested)) = 1
   \<and> count_list (printed (check_stop_losses plain_builtins (accepting_world (PInt 95)) abc_ingested))
        (Triggered (PStr ''A1'')) = 1
   \<and> 0 < count_list (requests (check_stop_losses plain_builtins (accepting_world (PInt 95)) abc_ingested))
        abc_sell_request
   \<and> liquidations (PStr ''A1'')
        (printed (check_stop_losses plain_builtins (accepting_world (PInt 96)) abc_ingested)) = 0"
proof -
  have keys: "distinct (map fst (stop_loss_orders abc_ingested))" by (simp add: abc_ingested_eq)
  have cred: "truthy (pass_credential abc_ingested)"
    by (simp add: pass_credential_def abc_ingested_eq watch_fields)
  have grp: "group_tokens (stop_loss_orders abc_ingested) [] = Inr ([] @ (PInt 1001, [PStr ''A1'']) # [])"
    by (simp add: abc_group)
  have look: "get_current_price plain_builtins (accepting_world q) (PInt 1001) (pass_credential abc_ingested)
           (check_groups plain_builtins (accepting_world q) (pass_credential abc_ingested)
              (say (Checking (length (stop_loss_orders abc_ingested))) abc_ingested) [])
         = (q, (say (Checking (length (stop_loss_orders abc_ingested))) abc_ingested)
                 \<lparr>requests := requests (say (Checking (length (stop_loss_orders abc_ingested))) abc_ingested)
                      @ [GetPrice (PInt 1001) (pass_credential abc_ingested)]\<rparr>)" for q
    by (simp add: abc_price)
  have kw: "map_of (stop_loss_orders abc_ingested) (PStr ''A1'') = Some abc_watch"
    by (simp add: abc_ingested_eq)
  have stop: "dget abc_watch ''stop_loss_price'' PNone = PFloat (Fin 95)"
    by (simp add: abc_watch_def dget_def)
  have flt: "\<forall>i\<in>set [PStr ''A1'']. \<exists>w f. map_of (stop_loss_orders abc_ingested) i = Some w
      \<and> dget w ''stop_loss_price'' PNone = PFloat f"
    using kw stop by simp
  have l0: "liquidations (PStr ''A1'') (printed abc_ingested) = 0"
    and t0: "count_list (printed abc_ingested) (Triggered (PStr ''A1'')) = 0"
    and r0: "count_list (requests abc_ingested) abc_sell_request = 0"
    by (simp_all add: abc_ingested_eq liquidations_def abc_sell_request_def)
  note at95 = trigger_boundary [OF keys cred grp look [of "PInt 95"] _ flt _ kw stop,
      where x = 95 and req = abc_sell_request]
  note at96 = trigger_boundary [OF keys cred grp look [of "PInt 96"] _ flt _ kw stop,
      where x = 96 and req = abc_sell_request]
  from at95 l0 t0 r0 abc_sell_request
  have a: "liquidations (PStr ''A1'')
        (printed (check_stop_losses plain_builtins (accepting_world (PInt 95)) abc_ingested)) = 1"
    and b: "count_list (printed (check_stop_losses plain_builtins (accepting_world (PInt 95)) abc_ingested))
        (Triggered (PStr ''A1'')) = 1"
    and c: "0 < count_list (requests (check_stop_losses plain_builtins (accepting_world (PInt 95)) abc_ingested))
        abc_sell_request"
    by simp_all
  from at96 l0 have d: "liquidations (PStr ''A1'')
        (printed (check_stop_losses plain_builtins (accepting_world (PInt 96)) abc_ingested)) = 0"
    by simp
  from keys cred grp kw stop abc_sell_request l0 r0 a b c d show ?thesis by simp
qed

section \<open>One lookup for each token (C7)\<close>

text \<open>
  C7, as stated, fails on the code. A sheet has two rows on instrument 1001: the token
  cell of the first is the number 1001, that of the second the text \<^verbatim>\<open>1001\<close>. Both rows
  are ingested (\<^verbatim>\<open>int\<close> gives 1001 for both) and each leaves a watch that keeps its
  cell as token. Line 80 compares the tokens as dictionary keys, the number and the text
  are two keys, and the pass issues two lookups for the one instrument identifier.
\<close>

theorem two_lookups_for_one_instrument:
  "map (\<lambda>kw. (fst kw, dget (snd kw) ''instrument_token'' PNone, dget (snd kw) ''access_token'' PNone))
     (stop_loss_orders mixed_ingested) =
     [(PStr ''ORD0'', PInt 1001, PStr ''tok''), (PStr ''ORD1'', PStr ''1001'', PStr ''tok'')]
   \<and> py_int digit_builtins (PInt 1001) = Inr 1001
   \<and> py_int digit_builtins (PStr ''1001'') = Inr 1001
   \<and> lookups (requests (check_stop_losses digit_builtins (numbering_world (PInt 96)) mixed_ingested)) =
        [(PInt 1001, PStr ''tok''), (PStr ''1001'', PStr ''tok'')]"
  by (simp add: mixed_store mixed_identifiers lookups_pass mixed_lookups del: py_int.simps)

text \<open>
  C7, amended. The lookups of a pass are those of \<open>pass_lookups\<close>, which reads only the
  store and no reply: no two of them are for the same token as a dictionary key, each
  is for the token of a watch, and there are at most as many as distinct keys among
  the tokens of the watches, which are at most as many as watches. When the first watch
  carries a credential (and every token is hashable) there is exactly one lookup for
  each distinct key; when it carries none there is no lookup. Whatever the groups
  before it did, failed lookups included, a watch whose own token was quoted with a
  number is evaluated in the same pass: \<^verbatim>\<open>execute_stop_loss\<close> is called for it once when its
  finite stop-loss price \<open>P\<close> is not 0 and the quote is at most \<open>P\<close>, and not at all otherwise.
\<close>

theorem one_lookup_per_token:
  "lookups (requests (check_stop_losses B W st)) = lookups (requests st) @ pass_lookups st
   \<and> distinct (lookup_keys (pass_lookups st))
   \<and> fst ` set (pass_lookups st) \<subseteq> set (tokens_of (stop_loss_orders st))
   \<and> length (pass_lookups st) \<le> card (hash_key ` set (tokens_of (stop_loss_orders st)))
   \<and> card (hash_key ` set (tokens_of (stop_loss_orders st))) \<le> length (stop_loss_orders st)
   \<and> (truthy (pass_credential st) \<and> (\<forall>t\<in>set (tokens_of (stop_loss_orders st)). \<exists>k. hash_key t = Inr k) \<longrightarrow>
        length (pass_lookups st) = card (hash_key ` set (tokens_of (stop_loss_orders st)))
        \<and> set (lookup_keys (pass_lookups st)) = hash_key ` set (tokens_of (stop_loss_orders st)))
   \<and> (\<not> truthy (pass_credential st) \<longrightarrow> pass_lookups st = [])
   \<and> (distinct (map fst (stop_loss_orders st))
        \<and> truthy (pass_credential st)
        \<and> group_tokens (stop_loss_orders st) [] = Inr (g1 @ (t, ids) # g2)
        \<and> get_current_price B W t (pass_credential st)
             (check_groups B W (pass_credential st) (say (Checking (length (stop_loss_orders st))) st) g1)
           = (c, st1)
        \<and> price_value c = Some x
        \<and> (\<forall>i\<in>set ids. \<exists>w f. map_of (stop_loss_orders st) i = Some w \<and> dget w ''stop_loss_price'' PNone = PFloat f)
        \<and> k \<in> set ids
        \<and> map_of (stop_loss_orders st) k = Some w
        \<and> dget w ''stop_loss_price'' PNone = PFloat (Fin P) \<longrightarrow>
        liquidations k (printed (check_stop_losses B W st)) =
          liquidations k (printed st) + (if P \<noteq> 0 \<and> x \<le> P then 1 else 0))"
proof -
  have "\<not> truthy (pass_credential st) \<longrightarrow> pass_lookups st = []" by (simp add: pass_lookups_def)
  moreover have "liquidations k (printed (check_stop_losses B W st)) =
          liquidations k (printed st) + (if P \<noteq> 0 \<and> x \<le> P then 1 else 0)"
    if "distinct (map fst (stop_loss_orders st))" "truthy (pass_credential st)"
      "group_tokens (stop_loss_orders st) [] = Inr (g1 @ (t, ids) # g2)"
      "get_current_price B W t (pass_credential st)
             (check_groups B W (pass_credential st) (say (Checking (length (stop_loss_orders st))) st) g1)
           = (c, st1)"
      "price_value c = Some x"
      "\<forall>i\<in>set ids. \<exists>w f. map_of (stop_loss_orders st) i = Some w \<and> dget w ''stop_loss_price'' PNone = PFloat f"
      "k \<in> set ids" "map_of (stop_loss_orders st) k = Some w"
      "dget w ''stop_loss_price'' PNone = PFloat (Fin P)"
    using pass_evaluates [OF that] by blast
  ultimately show ?thesis
    using lookups_pass [of B W st] pass_lookups_distinct [of st] pass_lookups_tokens [of st]
      pass_lookups_le [of st] distinct_tokens_le [of "stop_loss_orders st"]
      pass_lookups_exact [of st] pass_lookups_keys [of st]
    by blast
qed

theorem one_lookup_per_token_witness:
  "truthy (pass_credential shared_state)
   \<and> tokens_of (stop_loss_orders shared_state) = [PInt 1001, PInt 2002, PInt 1001]
   \<and> length (stop_loss_orders shared_state) = 3
   \<and> lookups (requests (check_stop_losses plain_builtins outage_world shared_state)) =
        [(PInt 1001, PStr ''tok''), (PInt 2002, PStr ''tok'')]
   \<and> length (pass_lookups shared_state) = card (hash_key ` set (tokens_of (stop_loss_orders shared_state)))
   \<and> length (pass_lookups shared_state) = 2
   \<and> fst (get_current_price plain_builtins outage_world (PInt 1001) (PStr ''tok'')
        (say (Checking 3) shared_state)) = PNone
   \<and> map_of (stop_loss_orders shared_state) (PStr ''B2'') = Some other_watch
   \<and> dget other_watch ''stop_loss_price'' PNone = PFloat (Fin 50)
   \<and> liquidations (PStr ''B2'') (printed shared_state) = 0
   \<and> liquidations (PStr ''B2'') (printed (check_stop_losses plain_builtins outage_world shared_state)) = 1"
proof -
  note t = one_lookup_per_token [where B = plain_builtins and W = outage_world and st = shared_state
      and ?g1.0 = "[(PInt 1001, [PStr ''A1'', PStr ''C3''])]" and t = "PInt 2002" and ids = "[PStr ''B2'']"
      and ?g2.0 = "[]" and c = "PInt 40" and x = 40 and k = "PStr ''B2''" and w = other_watch and P = 50
      and ?st1.0 = "snd (get_current_price plain_builtins outage_world (PInt 2002) (pass_credential shared_state)
             (check_groups plain_builtins outage_world (pass_credential shared_state)
                (say (Checking (length (stop_loss_orders shared_state))) shared_state)
                [(PInt 1001, [PStr ''A1'', PStr ''C3''])]))"]
  have c: "truthy (pass_credential shared_state)"
    by (simp add: pass_credential_def shared_state_def watch_fields)
  have h: "\<forall>t\<in>set (tokens_of (stop_loss_orders shared_state)). \<exists>k. hash_key t = Inr k"
    by (simp add: shared_tokens)
  have r: "lookups (requests shared_state) = []" and n: "length (stop_loss_orders shared_state) = 3"
    and keys: "distinct (map fst (stop_loss_orders shared_state))"
    and kw: "map_of (stop_loss_orders shared_state) (PStr ''B2'') = Some other_watch"
    and l0: "liquidations (PStr ''B2'') (printed shared_state) = 0"
    by (simp_all add: shared_state_def liquidations_def)
  have stop: "dget other_watch ''stop_loss_price'' PNone = PFloat (Fin 50)"
    by (simp add: other_watch_def dget_def)
  have flt: "\<forall>i\<in>set [PStr ''B2'']. \<exists>w f. map_of (stop_loss_orders shared_state) i = Some w
      \<and> dget w ''stop_loss_price'' PNone = PFloat f"
    using kw stop by simp
  have look: "get_current_price plain_builtins outage_world (PInt 2002) (pass_credential shared_state)
             (check_groups plain_builtins outage_world (pass_credential shared_state)
                (say (Checking (length (stop_loss_orders shared_state))) shared_state)
                [(PInt 1001, [PStr ''A1'', PStr ''C3''])])
           = (PInt 40, snd (get_current_price plain_builtins outage_world (PInt 2002) (pass_credential shared_state)
             (check_groups plain_builtins outage_world (pass_credential shared_state)
                (say (Checking (length (stop_loss_orders shared_state))) shared_state)
                [(PInt 1001, [PStr ''A1'', PStr ''C3''])])))"
    by (simp add: outage_quotes(2))
  have fail: "fst (get_current_price plain_builtins outage_world (PInt 1001) (PStr ''tok'')
        (say (Checking 3) shared_state)) = PNone"
    by (simp add: outage_quotes(1))
  from t c h have e: "length (pass_lookups shared_state) =
      card (hash_key ` set (tokens_of (stop_loss_orders shared_state)))" by blast
  from t have "lookups (requests (check_stop_losses plain_builtins outage_world shared_state)) =
      lookups (requests shared_state) @ pass_lookups shared_state" by blast
  then have l: "lookups (requests (check_stop_losses plain_builtins outage_world shared_state)) =
      [(PInt 1001, PStr ''tok''), (PInt 2002, PStr ''tok'')]" by (simp add: r shared_lookups)
  have two: "length (pass_lookups shared_state) = 2" by (simp add: shared_lookups)
  from t keys c shared_groups look flt kw stop
  have "liquidations (PStr ''B2'') (printed (check_stop_losses plain_builtins outage_world shared_state)) =
          liquidations (PStr ''B2'') (printed shared_state) + (if (50::real) \<noteq> 0 \<and> (40::real) \<le> 50 then 1 else 0)"
    by simp
  then have liq: "liquidations (PStr ''B2'') (printed (check_stop_losses plain_builtins outage_world shared_state)) = 1"
    by (simp add: l0)
  from c shared_tokens n l e two fail kw stop l0 liq show ?thesis by blast
qed

section \<open>Rows whose placement fails (C4)\<close>

text \<open>
  C4, as stated, fails on the code. When the placement call of the row raises, the row
  leaves no order record at all, with status \<^verbatim>\<open>failed\<close> or otherwise: the exception skips
  lines 259 to 288. When the broker answers with a rejection, the row gets an order
  record whose status is \<^verbatim>\<open>placed\<close>. Line 271 is the only place where a status is written.
\<close>

theorem failed_row_has_no_failed_record:
  "net silent_world 0 abc_buy_request = NoResponse
   \<and> process_excel_file plain_builtins silent_world abc_mapping ''tok'' (Some [(0, abc_row)]) empty_state =
       \<lparr>active_orders = [], stop_loss_orders = [], requests = [abc_buy_request], printed = [RowError 0]\<rparr>
   \<and> net (rejecting_world (PInt 94)) 0 abc_buy_request =
       Reply 400 (PDict [(''status'', PStr ''error''),
            (''errors'', PList [PDict [(''message'', PStr ''Insufficient funds'')]])])
   \<and> map (\<lambda>kr. (fst kr, dget (snd kr) ''status'' PNone))
        (active_orders (process_excel_file plain_builtins (rejecting_world (PInt 94)) abc_mapping ''tok''
           (Some [(0, abc_row)]) empty_state)) =
       [(PStr ''manual-1700000000-0'', PStr ''placed'')]"
  by (simp add: abc_silent abc_rejected dget_def) (simp add: silent_world_def rejecting_world_def abc_buy_request_def)

text \<open>
  C4, amended. Take a well-formed row, one that gets as far as its placement call.
  When the call raises (no response, or a body that is no JSON), the row has issued
  that one request, is reported as an error and leaves both stores as they were: no
  order record is made for it. When the call returns a body from which line 259 reads
  an order identifier that can be a key (\<^verbatim>\<open>data.order_id\<close>, or the \<^verbatim>\<open>manual-\<close> fallback when
  the body has no \<^verbatim>\<open>data\<close> or \<^verbatim>\<open>data\<close> has no \<^verbatim>\<open>order_id\<close>), the row gets an order record
  under that identifier, with the fields of the row, the body as response and the
  status \<^verbatim>\<open>placed\<close>, whatever the body says, a rejection included. When line 259 raises
  (the body is no object, \<^verbatim>\<open>data\<close> is no object, as with \<^verbatim>\<open>null\<close>, or the identifier is
  unhashable), the row is reported as an error and no order record is made. No row
  issues more than one request, and the loop goes on with the next row from the state
  the row left. No order record that the ingestion stores has another status than
  \<^verbatim>\<open>placed\<close>: if all records had it before the batch, all have it after.
\<close>

theorem failed_row_is_dropped:
  "(prepare_order B m (snd ir) = Inr (Some d)
      \<and> \<not> is_reply (net W (length (requests st)) (PostOrder (payload d) (PStr tok))) \<longrightarrow>
      process_row B W m tok st ir =
        say (RowError (fst ir)) (st\<lparr>requests := requests st @ [PostOrder (payload d) (PStr tok)]\<rparr>))
   \<and> (prepare_order B m (snd ir) = Inr (Some d)
      \<and> net W (length (requests st)) (PostOrder (payload d) (PStr tok)) = Reply code result
      \<and> bind (order_id_of result (manual_id (clock W (Suc (length (requests st)))) (fst ir))) hash_key = Inr k \<longrightarrow>
      map_of (active_orders (process_row B W m tok st ir)) k =
        Some [(''symbol'', symbol d),
              (''instrument_token'', instrument_token d),
              (''transaction_type'', PStr (transaction_type d)),
              (''quantity'', PInt (quantity d)),
              (''price'', PFloat (price d)),
              (''order_type'', PStr (order_type d)),
              (''product'', PStr (product d)),
              (''time'', PStr (now_iso W (Suc (length (requests st))))),
              (''status'', PStr ''placed''),
              (''response'', result),
              (''access_token'', PStr tok)]
      \<and> requests (process_row B W m tok st ir) = requests st @ [PostOrder (payload d) (PStr tok)])
   \<and> (prepare_order B m (snd ir) = Inr (Some d)
      \<and> net W (length (requests st)) (PostOrder (payload d) (PStr tok)) = Reply code result
      \<and> bind (order_id_of result (manual_id (clock W (Suc (length (requests st)))) (fst ir))) hash_key = Inl e \<longrightarrow>
      process_row B W m tok st ir =
        say (RowError (fst ir)) (st\<lparr>requests := requests st @ [PostOrder (payload d) (PStr tok)]\<rparr>))
   \<and> length (requests (process_row B W m tok st ir)) \<le> Suc (length (requests st))
   \<and> process_excel_file B W m tok (Some (ir # rows)) st =
       process_excel_file B W m tok (Some rows) (process_row B W m tok st ir)
   \<and> (list_all placed (active_orders st) \<longrightarrow>
       list_all placed (active_orders (process_excel_file B W m tok (Some rows) st)))"
proof -
  have "requests (process_row B W m tok st ir) = requests st @ [PostOrder (payload d) (PStr tok)]"
    if "prepare_order B m (snd ir) = Inr (Some d)"
      "net W (length (requests st)) (PostOrder (payload d) (PStr tok)) = Reply code result"
    using that by (simp add: process_row_answered)
  moreover have "process_excel_file B W m tok (Some (ir # rows)) st =
       process_excel_file B W m tok (Some rows) (process_row B W m tok st ir)"
    by (simp add: process_excel_file_def)
  moreover have "list_all placed (active_orders st) \<longrightarrow>
       list_all placed (active_orders (process_excel_file B W m tok (Some rows) st))"
    using rows_placed [of st B W m tok rows] by (simp add: process_excel_file_def)
  ultimately show ?thesis
    using process_row_failed [of B m ir d W st tok] process_row_requests [of B W m tok st ir]
      process_row_stored [of B m ir d W st tok code result k, unfolded order_record_def]
      process_row_unreadable [of B m ir d W st tok code result e]
    by blast
qed

theorem failed_row_is_dropped_witness:
  "process_row plain_builtins silent_world abc_mapping ''tok'' empty_state (0, abc_row) =
       say (RowError 0) (empty_state\<lparr>requests := [abc_buy_request]\<rparr>)
   \<and> net (rejecting_world (PInt 94)) 0 abc_buy_request =
       Reply 400 (PDict [(''status'', PStr ''error''),
            (''errors'', PList [PDict [(''message'', PStr ''Insufficient funds'')]])])
   \<and> map_of (active_orders (process_row plain_builtins (rejecting_world (PInt 94)) abc_mapping ''tok''
        empty_state (0, abc_row))) (PStr ''manual-1700000000-0'') =
       Some [(''symbol'', PStr ''abc''), (''instrument_token'', PInt 1001),
             (''transaction_type'', PStr ''BUY''), (''quantity'', PInt 10),
             (''price'', PFloat (Fin 100)), (''order_type'', PStr ''MARKET''),
             (''product'', PStr ''I''), (''time'', PStr ''2023-11-14T22:13:20''),
             (''status'', PStr ''placed''),
             (''response'', PDict [(''status'', PStr ''error''),
                 (''errors'', PList [PDict [(''message'', PStr ''Insufficient funds'')]])]),
             (''access_token'', PStr ''tok'')]
   \<and> net null_data_world 0 abc_buy_request =
       Reply 400 (PDict [(''status'', PStr ''error''), (''data'', PNone)])
   \<and> process_row plain_builtins null_data_world abc_mapping ''tok'' empty_state (0, abc_row) =
       say (RowError 0) (empty_state\<lparr>requests := [abc_buy_request]\<rparr>)
   \<and> active_orders (process_row plain_builtins null_data_world abc_mapping ''tok'' empty_state (0, abc_row)) = []
   \<and> map fst (active_orders (process_excel_file plain_builtins (rejecting_world (PInt 94)) abc_mapping ''tok''
        (Some [(0, abc_row)]) empty_state)) = [PStr ''manual-1700000000-0'']
   \<and> list_all placed (active_orders (process_excel_file plain_builtins (rejecting_world (PInt 94)) abc_mapping ''tok''
        (Some [(0, abc_row)]) empty_state))"
proof -
  let ?rej = "PDict [(''status'', PStr ''error''),
            (''errors'', PList [PDict [(''message'', PStr ''Insufficient funds'')]])]"
  let ?nul = "PDict [(''status'', PStr ''error''), (''data'', PNone)]"
  note silent = failed_row_is_dropped [where B = plain_builtins and m = abc_mapping and ir = "(0, abc_row)"
      and W = silent_world and st = empty_state and tok = "''tok''" and rows = "[]",
      unfolded snd_conv fst_conv abc_prepare]
  note rejected = failed_row_is_dropped [where B = plain_builtins and m = abc_mapping and ir = "(0, abc_row)"
      and W = "rejecting_world (PInt 94)" and st = empty_state and tok = "''tok''"
      and rows = "[(0, abc_row)]" and code = 400 and result = ?rej and k = "PStr ''manual-1700000000-0''",
      unfolded snd_conv fst_conv abc_prepare]
  note null = failed_row_is_dropped [where B = plain_builtins and m = abc_mapping and ir = "(0, abc_row)"
      and W = null_data_world and st = empty_state and tok = "''tok''" and rows = "[]"
      and code = 400 and result = ?nul and e = AttributeError,
      unfolded snd_conv fst_conv abc_prepare]
  have e: "list_all placed (active_orders empty_state)" "requests empty_state = []"
    "active_orders empty_state = []"
    by (simp_all add: empty_state_def)
  have s: "\<not> is_reply (net silent_world n req)" for n req by (simp add: silent_world_def)
  have r: "net (rejecting_world (PInt 94)) n (PostOrder p a) = Reply 400 ?rej" for n p a
    by (simp add: rejecting_world_def)
  have rc: "clock (rejecting_world (PInt 94)) n = 1700000000"
    "now_iso (rejecting_world (PInt 94)) n = ''2023-11-14T22:13:20''" for n
    by (simp_all add: rejecting_world_def)
  have rk: "bind (order_id_of ?rej (manual_id 1700000000 0)) hash_key = Inr (PStr ''manual-1700000000-0'')"
    by (simp add: order_id_of_def bind_def manual_id_example)
  have n: "net null_data_world n req = Reply 400 ?nul" "clock null_data_world n = 1700000000" for n req
    by (simp_all add: null_data_world_def)
  have nk: "bind (order_id_of ?nul (manual_id 1700000000 0)) hash_key = Inl AttributeError"
    by (simp add: order_id_of_def bind_def)
  from silent s e have c1: "process_row plain_builtins silent_world abc_mapping ''tok'' empty_state (0, abc_row) =
       say (RowError 0) (empty_state\<lparr>requests := [abc_buy_request]\<rparr>)"
    by (simp add: abc_buy_request_def)
  have c2: "net (rejecting_world (PInt 94)) 0 abc_buy_request = Reply 400 ?rej"
    by (simp add: abc_buy_request_def r)
  from rejected r rc rk e have c3: "map_of (active_orders (process_row plain_builtins (rejecting_world (PInt 94))
        abc_mapping ''tok'' empty_state (0, abc_row))) (PStr ''manual-1700000000-0'') =
       Some [(''symbol'', PStr ''abc''), (''instrument_token'', PInt 1001),
             (''transaction_type'', PStr ''BUY''), (''quantity'', PInt 10),
             (''price'', PFloat (Fin 100)), (''order_type'', PStr ''MARKET''),
             (''product'', PStr ''I''), (''time'', PStr ''2023-11-14T22:13:20''),
             (''status'', PStr ''placed''), (''response'', ?rej), (''access_token'', PStr ''tok'')]"
    by simp
  have c4: "net null_data_world 0 abc_buy_request = Reply 400 ?nul" by (simp add: n)
  from null n nk e have c5: "process_row plain_builtins null_data_world abc_mapping ''tok'' empty_state (0, abc_row) =
       say (RowError 0) (empty_state\<lparr>requests := [abc_buy_request]\<rparr>)"
    by (simp add: abc_buy_request_def)
  then have c6: "active_orders (process_row plain_builtins null_data_world abc_mapping ''tok'' empty_state (0, abc_row)) = []"
    by (simp add: say_def e)
  have c7: "map fst (active_orders (process_excel_file plain_builtins (rejecting_world (PInt 94)) abc_mapping ''tok''
        (Some [(0, abc_row)]) empty_state)) = [PStr ''manual-1700000000-0'']"
    by (simp add: abc_rejected)
  from rejected e have c8: "list_all placed (active_orders (process_excel_file plain_builtins
        (rejecting_world (PInt 94)) abc_mapping ''tok'' (Some [(0, abc_row)]) empty_state))"
    by blast
  from c1 c2 c3 c4 c5 c6 c7 c8 show ?thesis by blast
qed

section \<open>Rows are processed independently (C6)\<close>

text \<open>
  C6. Whatever the rows before it did, failures included, a well-formed row whose
  placement call is answered, with an order identifier that can be a key, gets its order
  record under that identifier: the fields of the row, the time, the status \<^verbatim>\<open>placed\<close>,
  the answer and the credential. The key is still in \<^verbatim>\<open>active_orders\<close> when the batch
  ends, whatever the rows after it do. The batch is never cut short: after the row, the
  loop processes the remaining rows from the state the row left. A row that fails
  leaves both stores as they were.
\<close>

theorem rows_are_independent:
  assumes "rows = pre @ ir # post"
    and "st1 = foldl (process_row B W m tok) st pre"
    and "prepare_order B m (snd ir) = Inr (Some d)"
    and "net W (length (requests st1)) (PostOrder (payload d) (PStr tok)) = Reply code result"
    and "bind (order_id_of result (manual_id (clock W (Suc (length (requests st1)))) (fst ir))) hash_key = Inr k"
  shows "process_excel_file B W m tok (Some rows) st =
           foldl (process_row B W m tok) (process_row B W m tok st1 ir) post
       \<and> map_of (active_orders (process_row B W m tok st1 ir)) k =
           Some [(''symbol'', symbol d),
                 (''instrument_token'', instrument_token d),
                 (''transaction_type'', PStr (transaction_type d)),
                 (''quantity'', PInt (quantity d)),
                 (''price'', PFloat (price d)),
                 (''order_type'', PStr (order_type d)),
                 (''product'', PStr (product d)),
                 (''time'', PStr (now_iso W (Suc (length (requests st1))))),
                 (''status'', PStr ''placed''),
                 (''response'', result),
                 (''access_token'', PStr tok)]
       \<and> k \<in> fst ` set (active_orders (process_excel_file B W m tok (Some rows) st))
       \<and> (row_fails B W m tok st' ir' \<longrightarrow>
            active_orders (process_row B W m tok st' ir') = active_orders st'
            \<and> stop_loss_orders (process_row B W m tok st' ir') = stop_loss_orders st')"
proof -
  have run: "process_excel_file B W m tok (Some rows) st =
           foldl (process_row B W m tok) (process_row B W m tok st1 ir) post"
    by (simp add: process_excel_file_def assms(1,2))
  have rec: "map_of (active_orders (process_row B W m tok st1 ir)) k =
           Some (order_record d (now_iso W (Suc (length (requests st1)))) result tok)"
    using assms(3,4,5) by (rule process_row_stored)
  then have "k \<in> fst ` set (active_orders (process_row B W m tok st1 ir))"
    by (metis domI dom_map_of_conv_image_fst)
  then have "k \<in> fst ` set (active_orders (process_excel_file B W m tok (Some rows) st))"
    unfolding run using rows_keys [of "process_row B W m tok st1 ir" B W m tok post] by blast
  with run rec [unfolded order_record_def] row_fails_frame [of B W m tok st' ir'] show ?thesis by blast
qed

theorem rows_are_independent_witness:
  "list_all (\<lambda>ir. map fst (snd ir) =
      [''symbol'', ''instrument_token'', ''transaction_type'', ''quantity'', ''price'']) batch_rows
   \<and> batch_rows = take 3 batch_rows @ (batch_rows ! 3) # drop 4 batch_rows
   \<and> row_fails plain_builtins batch_world abc_mapping ''tok''
        (foldl (process_row plain_builtins batch_world abc_mapping ''tok'') empty_state (take 2 batch_rows))
        (batch_rows ! 2)
   \<and> printed (foldl (process_row plain_builtins batch_world abc_mapping ''tok'') empty_state (take 3 batch_rows))
        = [OrderPlaced 0, OrderPlaced 1, RowError 2]
   \<and> map_of (active_orders (process_row plain_builtins batch_world abc_mapping ''tok''
        (foldl (process_row plain_builtins batch_world abc_mapping ''tok'') empty_state (take 3 batch_rows))
        (batch_rows ! 3))) (PStr ''ORD2'') =
       Some [(''symbol'', PStr ''abc''), (''instrument_token'', PInt 1001),
             (''transaction_type'', PStr ''BUY''), (''quantity'', PInt 1),
             (''price'', PFloat (Fin 0)), (''order_type'', PStr ''MARKET''),
             (''product'', PStr ''I''), (''time'', PStr ''2023-11-14T22:13:20''),
             (''status'', PStr ''placed''),
             (''response'', PDict [(''data'', PDict [(''order_id'', PStr ''ORD2'')])]),
             (''access_token'', PStr ''tok'')]
   \<and> PStr ''ORD2'' \<in> fst ` set (active_orders (process_excel_file plain_builtins batch_world abc_mapping ''tok''
        (Some batch_rows) empty_state))
   \<and> row_fails plain_builtins batch_world abc_mapping ''tok''
        (foldl (process_row plain_builtins batch_world abc_mapping ''tok'') empty_state (take 4 batch_rows))
        (batch_rows ! 4)
   \<and> active_orders (process_excel_file plain_builtins batch_world abc_mapping ''tok''
        (Some batch_rows) empty_state) =
       [(PStr ''ORD0'',
         [(''symbol'', PStr ''abc''), (''instrument_token'', PInt 1001),
          (''transaction_type'', PStr ''BUY''), (''quantity'', PInt 10),
          (''price'', PFloat (Fin 100)), (''order_type'', PStr ''MARKET''),
          (''product'', PStr ''I''), (''time'', PStr ''2023-11-14T22:13:20''),
          (''status'', PStr ''placed''),
          (''response'', PDict [(''data'', PDict [(''order_id'', PStr ''ORD0'')])]),
          (''access_token'', PStr ''tok'')]),
        (PStr ''ORD1'',
         [(''symbol'', PStr ''xyz''), (''instrument_token'', PInt 2002),
          (''transaction_type'', PStr ''SELL''), (''quantity'', PInt 5),
          (''price'', PFloat (Fin 0)), (''order_type'', PStr ''MARKET''),
          (''product'', PStr ''I''), (''time'', PStr ''2023-11-14T22:13:20''),
          (''status'', PStr ''placed''),
          (''response'', PDict [(''data'', PDict [(''order_id'', PStr ''ORD1'')])]),
          (''access_token'', PStr ''tok'')]),
        (PStr ''ORD2'', fourth_record)]
   \<and> printed (process_excel_file plain_builtins batch_world abc_mapping ''tok''
        (Some batch_rows) empty_state) = [OrderPlaced 0, OrderPlaced 1, RowError 2, OrderPlaced 3, RowError 4]"
proof -
  let ?st1 = "foldl (process_row plain_builtins batch_world abc_mapping ''tok'') empty_state (take 3 batch_rows)"
  have split: "batch_rows = take 3 batch_rows @ (batch_rows ! 3) # drop 4 batch_rows"
    by (simp add: batch_rows_def)
  note d = batch_prepare(2)
  have n: "net batch_world (length (requests ?st1))
      (PostOrder (payload \<lparr> symbol = PStr ''abc'', instrument_token = PInt 1001, transaction_type = ''BUY'',
                 quantity = 1, price = Fin 0, order_type = ''MARKET'', product = ''I'',
                 stop_loss_price = PNone,
                 payload =
                   [(''quantity'', PInt 1), (''product'', PStr ''I''),
                    (''validity'', PStr ''DAY''), (''price'', PFloat (Fin 0)),
                    (''tag'', PStr ''excel-order''), (''instrument_token'', PInt 1001),
                    (''order_type'', PStr ''MARKET''), (''transaction_type'', PStr ''BUY''),
                    (''disclosed_quantity'', PInt 0), (''trigger_price'', PFloat (Fin 0)),
                    (''is_amo'', PBool False)] \<rparr>) (PStr ''tok'')) =
      Reply 200 (PDict [(''data'', PDict [(''order_id'', PStr ''ORD2'')])])"
    by (simp only: batch_prefix(2) batch_ids(3))
  have k: "bind (order_id_of (PDict [(''data'', PDict [(''order_id'', PStr ''ORD2'')])])
             (manual_id (clock batch_world (Suc (length (requests ?st1)))) (fst (batch_rows ! 3)))) hash_key
           = Inr (PStr ''ORD2'')"
    by (simp add: order_id_of_def bind_def)
  have f2: "row_fails plain_builtins batch_world abc_mapping ''tok''
        (foldl (process_row plain_builtins batch_world abc_mapping ''tok'') empty_state (take 2 batch_rows))
        (batch_rows ! 2)"
    by (simp add: row_fails_def batch_prepare(1))
  have f4: "row_fails plain_builtins batch_world abc_mapping ''tok''
        (foldl (process_row plain_builtins batch_world abc_mapping ''tok'') empty_state (take 4 batch_rows))
        (batch_rows ! 4)"
    by (simp add: row_fails_def batch_eval)
  note t = rows_are_independent [OF split refl d n k]
  from t have r: "map_of (active_orders (process_row plain_builtins batch_world abc_mapping ''tok'' ?st1
        (batch_rows ! 3))) (PStr ''ORD2'') =
       Some [(''symbol'', PStr ''abc''), (''instrument_token'', PInt 1001),
             (''transaction_type'', PStr ''BUY''), (''quantity'', PInt 1),
             (''price'', PFloat (Fin 0)), (''order_type'', PStr ''MARKET''),
             (''product'', PStr ''I''), (''time'', PStr ''2023-11-14T22:13:20''),
             (''status'', PStr ''placed''),
             (''response'', PDict [(''data'', PDict [(''order_id'', PStr ''ORD2'')])]),
             (''access_token'', PStr ''tok'')]"
    by (simp add: batch_net)
  from t have m: "PStr ''ORD2'' \<in> fst ` set (active_orders (process_excel_file plain_builtins batch_world
        abc_mapping ''tok'' (Some batch_rows) empty_state))"
    by blast
  from batch_columns split f2 batch_prefix(3) r m f4 batch_result(1,2) show ?thesis by blast
qed

end
